theory Spec2Isabelle
  imports Main
begin

section \<open>Python values, exceptions and the process state\<close>

text \<open>
  The module \<^verbatim>\<open>nextgen/bcbio/utils.py\<close> is a set of helpers over the operating system:
  a parallel-map selector, a directory helper, three scoped resources, an output
  memoizer and a disk-space saver.  Every helper is modelled as a function on an explicit
  state (\<open>world\<close>) that returns either the exception it raises (\<open>Inl\<close>) or its value
  (\<open>Inr\<close>) together with the new state.
\<close>

datatype errno = EEXIST | ENOENT | ENOTDIR | EISDIR | EBADF

datatype exn =
    NotImplementedError string
  | ImportError string
  | AssertionError
  | KeyError string
  | ValueError
  | TypeError
  | StopIteration
  | OSError errno
  | IOError errno
  | UserError string

text \<open>
  The arguments \<^verbatim>\<open>cores\<close> and \<^verbatim>\<open>ipython\<close> of \<^verbatim>\<open>cpmap\<close> and the values of the
  configuration are dynamically typed.  The model covers \<^verbatim>\<open>None\<close>, booleans, integers
  and strings.
\<close>

datatype pyval = PyNone | PyBool bool | PyInt int | PyStr string

fun truthy :: "pyval \<Rightarrow> bool" where
  "truthy PyNone = False"
| "truthy (PyBool b) = b"
| "truthy (PyInt n) = (n \<noteq> 0)"
| "truthy (PyStr s) = (s \<noteq> [])"

definition is_space :: "char \<Rightarrow> bool" where
  "is_space c = (c = CHR '' '' \<or> c = CHR 0x09 \<or> c = CHR 0x0A \<or> c = CHR 0x0B
     \<or> c = CHR 0x0C \<or> c = CHR 0x0D)"

definition is_digit :: "char \<Rightarrow> bool" where
  "is_digit c = (48 \<le> (of_char c :: nat) \<and> (of_char c :: nat) \<le> 57)"

definition strip :: "string \<Rightarrow> string" where
  "strip s = rev (dropWhile is_space (rev (dropWhile is_space s)))"

definition digits_value :: "string \<Rightarrow> int" where
  "digits_value ds = foldl (\<lambda>acc c. 10 * acc + int ((of_char c :: nat) - 48)) 0 ds"

definition parse_decimal :: "string \<Rightarrow> exn + int" where
  "parse_decimal ds =
     (if ds \<noteq> [] \<and> list_all is_digit ds then Inr (digits_value ds) else Inl ValueError)"

text \<open>
  \<^verbatim>\<open>int(x)\<close>: the identity on integers, 0 or 1 on booleans, a \<^verbatim>\<open>TypeError\<close> on
  \<^verbatim>\<open>None\<close>, and on a string the decimal literal it holds (blanks around it and one
  sign allowed) or a \<^verbatim>\<open>ValueError\<close>.
\<close>

fun py_int :: "pyval \<Rightarrow> exn + int" where
  "py_int PyNone = Inl TypeError"
| "py_int (PyBool b) = Inr (if b then 1 else 0)"
| "py_int (PyInt n) = Inr n"
| "py_int (PyStr s) =
     (case strip s of
        c # ds \<Rightarrow>
          (if c = CHR ''-'' then map_sum id uminus (parse_decimal ds)
           else if c = CHR ''+'' then parse_decimal ds
           else parse_decimal (c # ds))
      | [] \<Rightarrow> Inl ValueError)"

datatype node = File string | Dir

datatype pool_status = Running | Terminated

text \<open>
  The state the helpers read and change:
  \<^item> \<open>files\<close>: the file system, a map from absolute path strings to nodes (paths are
    compared as strings: the model does not normalise \<^verbatim>\<open>.\<close>, \<^verbatim>\<open>..\<close> or doubled
    slashes);
  \<^item> \<open>cwd\<close>: the working directory of the process;
  \<^item> \<open>open_fds\<close>: the open file descriptors;
  \<^item> \<open>name_choices\<close>: the random choices \<^verbatim>\<open>tempfile\<close> will draw for candidate
    names, each choice a list of indices into its character table;
  \<^item> \<open>pools\<close>: every \<^verbatim>\<open>multiprocessing.Pool\<close> created so far, with its number of
    workers and whether it still runs (a pool's id is its index);
  \<^item> \<open>imap_patches\<close>: how many times \<^verbatim>\<open>IMapIterator.next\<close> has been wrapped;
  \<^item> \<open>has_multiprocessing\<close>: whether \<^verbatim>\<open>import multiprocessing\<close> succeeded when the
    module was loaded.
\<close>

record world =
  files :: "string \<rightharpoonup> node"
  cwd :: string
  open_fds :: "nat list"
  name_choices :: "nat list list"
  pools :: "(nat \<times> pool_status) list"
  imap_patches :: nat
  has_multiprocessing :: bool

type_synonym 'a result = "(exn + 'a) \<times> world"

text \<open>
  \<^verbatim>\<open>try: body finally: cleanup\<close>: the cleanup runs after the body however the body
  ended; the body's outcome stands unless the cleanup itself raises.
\<close>

definition try_finally :: "(world \<Rightarrow> 'a result) \<Rightarrow> (world \<Rightarrow> unit result) \<Rightarrow> world \<Rightarrow> 'a result" where
  "try_finally body cleanup s =
     (case body s of (r, s1) \<Rightarrow>
        (case cleanup s1 of
           (Inl e, s2) \<Rightarrow> (Inl e, s2)
         | (Inr _, s2) \<Rightarrow> (r, s2)))"

section \<open>The parallel-map selector \<^verbatim>\<open>cpmap\<close>\<close>

datatype mapper = Itertools_imap | Pool_imap nat

text \<open>
  \<^verbatim>\<open>multiprocessing.Pool(n)\<close> starts \<open>n\<close> workers (a \<^verbatim>\<open>ValueError\<close> below one worker);
  \<^verbatim>\<open>pool.terminate()\<close> stops the workers at once, without waiting for outstanding
  work.
\<close>

definition Pool :: "int \<Rightarrow> world \<Rightarrow> nat result" where
  "Pool n s =
     (if n < 1 then (Inl ValueError, s)
      else (Inr (length (pools s)), s\<lparr>pools := pools s @ [(nat n, Running)]\<rparr>))"

definition terminate :: "nat \<Rightarrow> world \<Rightarrow> world" where
  "terminate p s = s\<lparr>pools := (pools s)[p := (fst (pools s ! p), Terminated)]\<rparr>"

definition pool_terminated :: "world \<Rightarrow> nat \<Rightarrow> bool" where
  "pool_terminated s p = (p < length (pools s) \<and> snd (pools s ! p) = Terminated)"

text \<open>
  \<^verbatim>\<open>cpmap\<close> is a generator under \<^verbatim>\<open>contextlib.contextmanager\<close>; \<open>body\<close> is the block of
  the \<^verbatim>\<open>with\<close> statement, run where the generator yields.  When the block raises, the
  exception is thrown into the generator at its \<^verbatim>\<open>yield\<close>: the multi-process branch
  has no handler there, so the exception leaves the generator and the
  \<^verbatim>\<open>pool.terminate()\<close> after the \<^verbatim>\<open>yield\<close> is not reached.
\<close>

definition cpmap :: "pyval \<Rightarrow> pyval \<Rightarrow> (mapper \<Rightarrow> world \<Rightarrow> 'a result) \<Rightarrow> world \<Rightarrow> 'a result" where
  "cpmap cores ipython body s =
     (if truthy ipython \<or> cores = PyStr ''ipython'' then
        (Inl (NotImplementedError ''Not working yet''), s)
      else
        (case py_int cores of
           Inl e \<Rightarrow> (Inl e, s)
         | Inr n \<Rightarrow>
             if n = 1 then body Itertools_imap s
             else if \<not> has_multiprocessing s then
               (Inl (ImportError ''multiprocessing not available''), s)
             else
               (case Pool n (s\<lparr>imap_patches := Suc (imap_patches s)\<rparr>) of
                  (Inl e, s1) \<Rightarrow> (Inl e, s1)
                | (Inr pool, s1) \<Rightarrow>
                    (case body (Pool_imap pool) s1 of
                       (Inl e, s2) \<Rightarrow> (Inl e, s2)
                     | (Inr v, s2) \<Rightarrow> (Inr v, terminate pool s2)))))"

text \<open>
  \<^verbatim>\<open>itertools.imap(f, xs)\<close> is a lazy iterator: building it calls nothing, and each
  \<^verbatim>\<open>next\<close> applies \<open>f\<close> to the first element not yet consumed.  The iterator is the
  function with the elements still to come.
\<close>

datatype ('a, 'b) imap_iter = Imap_iter "'a \<Rightarrow> world \<Rightarrow> 'b result" "'a list"

definition itertools_imap :: "('a \<Rightarrow> world \<Rightarrow> 'b result) \<Rightarrow> 'a list \<Rightarrow> ('a, 'b) imap_iter" where
  "itertools_imap f xs = Imap_iter f xs"

fun imap_next :: "('a, 'b) imap_iter \<Rightarrow> world \<Rightarrow> (exn + 'b) \<times> ('a, 'b) imap_iter \<times> world" where
  "imap_next (Imap_iter f []) s = (Inl StopIteration, Imap_iter f [], s)"
| "imap_next (Imap_iter f (x # xs)) s = (case f x s of (r, s1) \<Rightarrow> (r, Imap_iter f xs, s1))"

fun remaining :: "('a, 'b) imap_iter \<Rightarrow> 'a list" where
  "remaining (Imap_iter f xs) = xs"

text \<open>
  Consuming the iterator to its end (\<^verbatim>\<open>list(it)\<close>, or a \<^verbatim>\<open>for\<close> loop that collects):
  \<^verbatim>\<open>next\<close> until \<^verbatim>\<open>StopIteration\<close>; any other exception ends the loop and propagates.
\<close>

function drain :: "('a, 'b) imap_iter \<Rightarrow> world \<Rightarrow> 'b list result" where
  "drain it s =
     (case imap_next it s of
        (Inl e, it1, s1) \<Rightarrow> if e = StopIteration then (Inr [], s1) else (Inl e, s1)
      | (Inr y, it1, s1) \<Rightarrow>
          (case drain it1 s1 of
             (Inl e, s2) \<Rightarrow> (Inl e, s2)
           | (Inr ys, s2) \<Rightarrow> (Inr (y # ys), s2)))"
  by pat_completeness auto
termination
  apply (relation "measure (\<lambda>(it, s). length (remaining it))")
   apply simp
  subgoal for it s
    by (cases it; cases "remaining it") (auto split: prod.splits)
  done

declare drain.simps [simp del]

text \<open>
  What the claim about the sequential mapper compares \<open>drain\<close> with: \<open>f\<close> applied to
  \<open>x1\<close>, then to \<open>x2\<close>, and so on, each call starting in the state the one before left.
\<close>

fun in_order :: "('a \<Rightarrow> world \<Rightarrow> 'b \<times> world) \<Rightarrow> 'a list \<Rightarrow> world \<Rightarrow> 'b list \<times> world" where
  "in_order g [] s = ([], s)"
| "in_order g (x # xs) s =
     (case g x s of (y, s1) \<Rightarrow> (case in_order g xs s1 of (ys, s2) \<Rightarrow> (y # ys, s2)))"

text \<open>A function that always returns (never raises), as the block passes it to the mapper.\<close>

definition returning :: "('a \<Rightarrow> world \<Rightarrow> 'b \<times> world) \<Rightarrow> 'a \<Rightarrow> world \<Rightarrow> 'b result" where
  "returning g x s = (case g x s of (y, s1) \<Rightarrow> (Inr y, s1))"

section \<open>Paths and the file system\<close>

text \<open>
  \<^verbatim>\<open>posixpath.join(a, b)\<close>: an absolute \<open>b\<close> replaces \<open>a\<close>; otherwise \<open>b\<close> is appended,
  after a slash unless \<open>a\<close> is empty or ends with one.
\<close>

definition path_join :: "string \<Rightarrow> string \<Rightarrow> string" where
  "path_join a b =
     (if b \<noteq> [] \<and> hd b = CHR ''/'' then b
      else if a = [] \<or> last a = CHR ''/'' then a @ b
      else a @ ''/'' @ b)"

text \<open>How the operating system reads a path: a relative one starts at the working directory.\<close>

definition resolve :: "world \<Rightarrow> string \<Rightarrow> string" where
  "resolve s p = (if p \<noteq> [] \<and> hd p = CHR ''/'' then p else path_join (cwd s) p)"

text \<open>An absolute path starts at the root; \<^verbatim>\<open>os.getcwd()\<close> always returns one.\<close>

definition is_abs :: "string \<Rightarrow> bool" where
  "is_abs p = (p \<noteq> [] \<and> hd p = CHR ''/'')"

definition lookup :: "world \<Rightarrow> string \<Rightarrow> node option" where
  "lookup s p = (if p = [] then None else files s (resolve s p))"

definition path_exists :: "world \<Rightarrow> string \<Rightarrow> bool" where
  "path_exists s p = (lookup s p \<noteq> None)"

definition path_isdir :: "world \<Rightarrow> string \<Rightarrow> bool" where
  "path_isdir s p = (lookup s p = Some Dir)"

definition path_isfile :: "world \<Rightarrow> string \<Rightarrow> bool" where
  "path_isfile s p = (case lookup s p of Some (File c) \<Rightarrow> True | _ \<Rightarrow> False)"

text \<open>The size a directory reports is a block, never zero.\<close>

definition dir_size :: int where
  "dir_size = 4096"

definition path_getsize :: "world \<Rightarrow> string \<Rightarrow> exn + int" where
  "path_getsize s p =
     (case lookup s p of
        None \<Rightarrow> Inl (OSError ENOENT)
      | Some (File c) \<Rightarrow> Inr (int (length c))
      | Some Dir \<Rightarrow> Inr dir_size)"

text \<open>
  The directories above a path: its proper prefixes that end just before a slash
  (the root itself is not listed).  \<open>path_under d q\<close>: \<open>q\<close> lies below the directory \<open>d\<close>.
\<close>

definition ancestors :: "string \<Rightarrow> string list" where
  "ancestors q = map (\<lambda>i. take i q) (filter (\<lambda>i. q ! i = CHR ''/'') [1..<length q])"

definition parent_dir :: "string \<Rightarrow> string" where
  "parent_dir q =
     (let head = rev (dropWhile (\<lambda>c. c \<noteq> CHR ''/'') (rev q))
      in if head \<noteq> [] \<and> \<not> list_all (\<lambda>c. c = CHR ''/'') head
         then rev (dropWhile (\<lambda>c. c = CHR ''/'') (rev head)) else head)"

definition path_under :: "string \<Rightarrow> string \<Rightarrow> bool" where
  "path_under d q = (take (Suc (length d)) q = d @ ''/'')"

text \<open>
  \<^verbatim>\<open>os.makedirs\<close> creates the directory and every missing directory above it.  It
  raises \<^verbatim>\<open>OSError\<close> when the path is empty, when something already is at the path,
  and when a path above it is a file.
\<close>

definition os_makedirs :: "string \<Rightarrow> world \<Rightarrow> unit result" where
  "os_makedirs p s =
     (let q = resolve s p in
      if p = [] then (Inl (OSError ENOENT), s)
      else if files s q \<noteq> None then (Inl (OSError EEXIST), s)
      else if list_ex (\<lambda>a. case files s a of Some (File c) \<Rightarrow> True | _ \<Rightarrow> False) (ancestors q)
        then (Inl (OSError ENOTDIR), s)
      else (Inr (), s\<lparr>files := (\<lambda>k. if k = q \<or> k \<in> set (ancestors q) then Some Dir else files s k)\<rparr>))"

text \<open>\<^verbatim>\<open>os.mkdir\<close> creates one directory, in a directory that exists.\<close>

definition os_mkdir :: "string \<Rightarrow> world \<Rightarrow> unit result" where
  "os_mkdir p s =
     (let q = resolve s p in
      if p = [] then (Inl (OSError ENOENT), s)
      else if files s q \<noteq> None then (Inl (OSError EEXIST), s)
      else (case files s (parent_dir q) of
              None \<Rightarrow> (Inl (OSError ENOENT), s)
            | Some (File c) \<Rightarrow> (Inl (OSError ENOTDIR), s)
            | Some Dir \<Rightarrow> (Inr (), s\<lparr>files := (files s)(q \<mapsto> Dir)\<rparr>)))"

text \<open>
  \<^verbatim>\<open>shutil.rmtree\<close> removes a directory with everything below it, and raises
  \<^verbatim>\<open>OSError\<close> on a path that is not a directory.
\<close>

definition shutil_rmtree :: "string \<Rightarrow> world \<Rightarrow> unit result" where
  "shutil_rmtree p s =
     (let q = resolve s p in
      case lookup s p of
        None \<Rightarrow> (Inl (OSError ENOENT), s)
      | Some (File c) \<Rightarrow> (Inl (OSError ENOTDIR), s)
      | Some Dir \<Rightarrow> (Inr (), s\<lparr>files := (\<lambda>k. if k = q \<or> path_under q k then None else files s k)\<rparr>))"

definition os_remove :: "string \<Rightarrow> world \<Rightarrow> unit result" where
  "os_remove p s =
     (case lookup s p of
        None \<Rightarrow> (Inl (OSError ENOENT), s)
      | Some Dir \<Rightarrow> (Inl (OSError EISDIR), s)
      | Some (File c) \<Rightarrow> (Inr (), s\<lparr>files := (files s)(resolve s p := None)\<rparr>))"

definition os_getcwd :: "world \<Rightarrow> string" where
  "os_getcwd s = cwd s"

definition os_chdir :: "string \<Rightarrow> world \<Rightarrow> unit result" where
  "os_chdir p s =
     (case lookup s p of
        None \<Rightarrow> (Inl (OSError ENOENT), s)
      | Some (File c) \<Rightarrow> (Inl (OSError ENOTDIR), s)
      | Some Dir \<Rightarrow> (Inr (), s\<lparr>cwd := resolve s p\<rparr>))"

definition os_close :: "nat \<Rightarrow> world \<Rightarrow> unit result" where
  "os_close fd s =
     (if fd \<in> set (open_fds s) then (Inr (), s\<lparr>open_fds := removeAll fd (open_fds s)\<rparr>)
      else (Inl (OSError EBADF), s))"

text \<open>
  \<^verbatim>\<open>posixpath.basename\<close>: what follows the last slash (empty for a path that ends with a
  slash).
\<close>

definition basename :: "string \<Rightarrow> string" where
  "basename p = rev (takeWhile (\<lambda>c. c \<noteq> CHR ''/'') (rev p))"

text \<open>
  \<^verbatim>\<open>open(fname, "w")\<close>, one \<^verbatim>\<open>write\<close> and the close at the end of the \<^verbatim>\<open>with\<close> block:
  the file is created or truncated and then holds what was written.  \<^verbatim>\<open>open\<close> raises
  \<^verbatim>\<open>IOError\<close> on the empty name, on a directory, on a name that can only be a directory
  (it ends with a slash, or its last part is \<^verbatim>\<open>.\<close> or \<^verbatim>\<open>..\<close>), and when the directory the
  file would lie in is missing or is a file.  A new file is entered under its directory
  joined with its name.
\<close>

definition write_file :: "string \<Rightarrow> string \<Rightarrow> world \<Rightarrow> unit result" where
  "write_file p contents s =
     (let q = resolve s p in
      if p = [] then (Inl (IOError ENOENT), s)
      else
        (case files s q of
           Some Dir \<Rightarrow> (Inl (IOError EISDIR), s)
         | Some (File c) \<Rightarrow> (Inr (), s\<lparr>files := (files s)(q \<mapsto> File contents)\<rparr>)
         | None \<Rightarrow>
             (if basename q = [] then
                (case files s (parent_dir q) of
                   Some (File c) \<Rightarrow> (Inl (IOError ENOTDIR), s)
                 | Some Dir \<Rightarrow> (Inl (IOError EISDIR), s)
                 | None \<Rightarrow>
                     (case files s (parent_dir (parent_dir q)) of
                        Some Dir \<Rightarrow> (Inl (IOError EISDIR), s)
                      | Some (File c) \<Rightarrow> (Inl (IOError ENOTDIR), s)
                      | None \<Rightarrow> (Inl (IOError ENOENT), s)))
              else
                (case files s (parent_dir q) of
                   None \<Rightarrow> (Inl (IOError ENOENT), s)
                 | Some (File c) \<Rightarrow> (Inl (IOError ENOTDIR), s)
                 | Some Dir \<Rightarrow>
                     (if basename q = ''.'' \<or> basename q = ''..'' then (Inl (IOError EISDIR), s)
                      else
                        (let target = path_join (parent_dir q) (basename q) in
                         case files s target of
                           Some Dir \<Rightarrow> (Inl (IOError EISDIR), s)
                         | _ \<Rightarrow> (Inr (), s\<lparr>files := (files s)(target \<mapsto> File contents)\<rparr>)))))))"

text \<open>
  A name can be opened for writing when it is a regular file, or when nothing is there,
  the directory it would lie in exists, and the name is that directory joined with a
  last part that is a file name (not empty, not \<^verbatim>\<open>.\<close>, not \<^verbatim>\<open>..\<close>).  Permissions and
  links are not part of the model.
\<close>

definition writable :: "world \<Rightarrow> string \<Rightarrow> bool" where
  "writable s p =
     (let q = resolve s p in
      p \<noteq> [] \<and>
      (case files s q of
         Some Dir \<Rightarrow> False
       | Some (File c) \<Rightarrow> True
       | None \<Rightarrow>
           files s (parent_dir q) = Some Dir
           \<and> basename q \<noteq> [] \<and> basename q \<noteq> ''.'' \<and> basename q \<noteq> ''..''
           \<and> path_join (parent_dir q) (basename q) = q))"

subsection \<open>\<^verbatim>\<open>tempfile\<close>\<close>

definition tmp_chars :: string where
  "tmp_chars = ''abcdefghijklmnopqrstuvwxyzABCDEFGHIJKLMNOPQRSTUVWXYZ0123456789_''"

definition tmp_name :: "nat list \<Rightarrow> string" where
  "tmp_name choice = map (\<lambda>i. tmp_chars ! (i mod length tmp_chars)) choice"

text \<open>
  \<^verbatim>\<open>tempfile.mkdtemp(dir=d)\<close> tries candidate names until \<^verbatim>\<open>os.mkdir\<close> succeeds: a
  name that is taken is skipped, any other failure is raised, and running out of
  candidates is an \<^verbatim>\<open>IOError\<close>.  The candidates are the state's \<open>name_choices\<close>.
\<close>

fun mkdtemp_try :: "string \<Rightarrow> nat list list \<Rightarrow> world \<Rightarrow> string result" where
  "mkdtemp_try d [] s = (Inl (IOError EEXIST), s)"
| "mkdtemp_try d (c # cs) s =
     (let file = path_join d (''tmp'' @ tmp_name c) in
      case os_mkdir file (s\<lparr>name_choices := cs\<rparr>) of
        (Inr u, s1) \<Rightarrow> (Inr file, s1)
      | (Inl e, s1) \<Rightarrow> if e = OSError EEXIST then mkdtemp_try d cs s1 else (Inl e, s1))"

definition tempfile_mkdtemp :: "string \<Rightarrow> world \<Rightarrow> string result" where
  "tempfile_mkdtemp d s = mkdtemp_try d (name_choices s) s"

text \<open>
  \<^verbatim>\<open>os.open(file, O_CREAT | O_EXCL | O_RDWR)\<close>: a new empty file and the lowest free
  descriptor for it.
\<close>

definition new_fd :: "nat list \<Rightarrow> nat" where
  "new_fd fds = hd (filter (\<lambda>n. n \<notin> set fds) [0..<Suc (length fds)])"

definition os_open_excl :: "string \<Rightarrow> world \<Rightarrow> nat result" where
  "os_open_excl p s =
     (let q = resolve s p in
      if p = [] then (Inl (OSError ENOENT), s)
      else if files s q \<noteq> None then (Inl (OSError EEXIST), s)
      else (case files s (parent_dir q) of
              None \<Rightarrow> (Inl (OSError ENOENT), s)
            | Some (File c) \<Rightarrow> (Inl (OSError ENOTDIR), s)
            | Some Dir \<Rightarrow>
                (Inr (new_fd (open_fds s)),
                 s\<lparr>files := (files s)(q \<mapsto> File []), open_fds := new_fd (open_fds s) # open_fds s\<rparr>)))"

fun mkstemp_try :: "string \<Rightarrow> string \<Rightarrow> string \<Rightarrow> nat list list \<Rightarrow> world \<Rightarrow> (nat \<times> string) result" where
  "mkstemp_try suffix prefix d [] s = (Inl (IOError EEXIST), s)"
| "mkstemp_try suffix prefix d (c # cs) s =
     (let file = path_join d (prefix @ tmp_name c @ suffix) in
      case os_open_excl file (s\<lparr>name_choices := cs\<rparr>) of
        (Inr fd, s1) \<Rightarrow> (Inr (fd, resolve s1 file), s1)
      | (Inl e, s1) \<Rightarrow> if e = OSError EEXIST then mkstemp_try suffix prefix d cs s1 else (Inl e, s1))"

definition tempfile_mkstemp :: "string \<Rightarrow> string \<Rightarrow> string \<Rightarrow> world \<Rightarrow> (nat \<times> string) result" where
  "tempfile_mkstemp suffix prefix d s = mkstemp_try suffix prefix d (name_choices s) s"

subsection \<open>\<^verbatim>\<open>os.path.splitext\<close>\<close>

text \<open>
  \<open>rfind c p\<close> is the last index of \<open>c\<close> in \<open>p\<close>, or \<open>-1\<close>.  \<^verbatim>\<open>splitext\<close> cuts at the
  last dot when that dot comes after the last slash and some character between the
  slash and the dot is not a dot (a name made of leading dots has no extension).
\<close>

definition rfind :: "char \<Rightarrow> string \<Rightarrow> int" where
  "rfind c p = (case filter (\<lambda>i. p ! i = c) (rev [0..<length p]) of [] \<Rightarrow> - 1 | i # _ \<Rightarrow> int i)"

definition splitext :: "string \<Rightarrow> string \<times> string" where
  "splitext p =
     (let sepIndex = rfind (CHR ''/'') p;
          dotIndex = rfind (CHR ''.'') p
      in if dotIndex > sepIndex
            \<and> list_ex (\<lambda>i. p ! i \<noteq> CHR ''.'') [nat (sepIndex + 1)..<nat dotIndex]
         then (take (nat dotIndex) p, drop (nat dotIndex) p)
         else (p, []))"

text \<open>The file name of a path (what follows its last slash) holds nothing but dots.\<close>

definition dots_only :: "string \<Rightarrow> bool" where
  "dots_only r = list_all (\<lambda>c. c = CHR ''.'') (basename r)"

section \<open>The helpers of \<^verbatim>\<open>utils.py\<close>\<close>

subsection \<open>\<^verbatim>\<open>safe_makedir\<close>\<close>

text \<open>
  \<open>others\<close> is what other processes do to the file system between the helper's
  existence test and its \<^verbatim>\<open>os.makedirs\<close>: the race the source's comment names.
  \<open>safe_makedir\<close> is the helper running alone.  Only \<^verbatim>\<open>OSError\<close> is caught, and the
  handler is an \<^verbatim>\<open>assert\<close>.
\<close>

definition safe_makedir_racing :: "(world \<Rightarrow> world) \<Rightarrow> string \<Rightarrow> world \<Rightarrow> unit result" where
  "safe_makedir_racing others dname s =
     (if \<not> path_exists s dname then
        (case os_makedirs dname (others s) of
           (Inr u, s1) \<Rightarrow> (Inr (), s1)
         | (Inl e, s1) \<Rightarrow>
             (case e of
                OSError n \<Rightarrow> if path_isdir s1 dname then (Inr (), s1) else (Inl AssertionError, s1)
              | _ \<Rightarrow> (Inl e, s1)))
      else (Inr (), s))"

definition safe_makedir :: "string \<Rightarrow> world \<Rightarrow> unit result" where
  "safe_makedir dname s = safe_makedir_racing (\<lambda>w. w) dname s"

subsection \<open>The scoped helpers\<close>

text \<open>
  Each is a generator under \<^verbatim>\<open>contextlib.contextmanager\<close> whose \<^verbatim>\<open>yield\<close> stands in a
  \<^verbatim>\<open>try ... finally\<close>; \<open>body\<close> is the block of the \<^verbatim>\<open>with\<close> statement.  The part before
  the \<^verbatim>\<open>try\<close> is the \<open>_enter\<close> function: when it raises, the block never runs.
\<close>

definition curdir_tmpdir_enter :: "world \<Rightarrow> string result" where
  "curdir_tmpdir_enter s =
     (let tmp_dir_base = path_join (os_getcwd s) ''tmp'' in
      case safe_makedir tmp_dir_base s of
        (Inl e, s1) \<Rightarrow> (Inl e, s1)
      | (Inr u, s1) \<Rightarrow>
          (case tempfile_mkdtemp tmp_dir_base s1 of
             (Inl e, s2) \<Rightarrow> (Inl e, s2)
           | (Inr tmp_dir, s2) \<Rightarrow>
               (case safe_makedir tmp_dir s2 of
                  (Inl e, s3) \<Rightarrow> (Inl e, s3)
                | (Inr u, s3) \<Rightarrow> (Inr tmp_dir, s3))))"

definition curdir_tmpdir :: "(string \<Rightarrow> world \<Rightarrow> 'a result) \<Rightarrow> world \<Rightarrow> 'a result" where
  "curdir_tmpdir body s =
     (case curdir_tmpdir_enter s of
        (Inl e, s1) \<Rightarrow> (Inl e, s1)
      | (Inr tmp_dir, s1) \<Rightarrow> try_finally (body tmp_dir) (shutil_rmtree tmp_dir) s1)"

definition chdir_enter :: "string \<Rightarrow> world \<Rightarrow> string result" where
  "chdir_enter new_dir s =
     (let cur_dir = os_getcwd s in
      case safe_makedir new_dir s of
        (Inl e, s1) \<Rightarrow> (Inl e, s1)
      | (Inr u, s1) \<Rightarrow>
          (case os_chdir new_dir s1 of
             (Inl e, s2) \<Rightarrow> (Inl e, s2)
           | (Inr u, s2) \<Rightarrow> (Inr cur_dir, s2)))"

definition chdir :: "string \<Rightarrow> (world \<Rightarrow> 'a result) \<Rightarrow> world \<Rightarrow> 'a result" where
  "chdir new_dir body s =
     (case chdir_enter new_dir s of
        (Inl e, s1) \<Rightarrow> (Inl e, s1)
      | (Inr cur_dir, s1) \<Rightarrow> try_finally body (os_chdir cur_dir) s1)"

text \<open>
  \<^verbatim>\<open>tmpfile(*args, **kwargs)\<close> hands its arguments to \<^verbatim>\<open>tempfile.mkstemp\<close>; they are
  given here with the defaults filled in (suffix, prefix, directory).
\<close>

definition tmpfile_exit :: "nat \<Rightarrow> string \<Rightarrow> world \<Rightarrow> unit result" where
  "tmpfile_exit fd fname s =
     (case os_close fd s of
        (Inl e, s1) \<Rightarrow> (Inl e, s1)
      | (Inr u, s1) \<Rightarrow> if path_exists s1 fname then os_remove fname s1 else (Inr (), s1))"

definition tmpfile :: "string \<Rightarrow> string \<Rightarrow> string \<Rightarrow> (string \<Rightarrow> world \<Rightarrow> 'a result) \<Rightarrow> world \<Rightarrow> 'a result" where
  "tmpfile suffix prefix d body s =
     (case tempfile_mkstemp suffix prefix d s of
        (Inl e, s1) \<Rightarrow> (Inl e, s1)
      | (Inr (fd, fname), s1) \<Rightarrow> try_finally (body fname) (tmpfile_exit fd fname) s1)"

subsection \<open>\<^verbatim>\<open>memoize_outfile\<close>\<close>

text \<open>
  The decorated function: \<open>f\<close> is the wrapped function, \<open>args\<close> its positional and
  \<open>kwargs\<close> its keyword arguments (file names).  The wrapped function's own return
  value is dropped.
\<close>

definition memoize_in_file :: "string list \<Rightarrow> (string \<rightharpoonup> string) \<Rightarrow> exn + string" where
  "memoize_in_file args kwargs =
     (if length args > 0 then Inr (args ! 0)
      else (case kwargs ''in_file'' of None \<Rightarrow> Inl (KeyError ''in_file'') | Some v \<Rightarrow> Inr v))"

definition memoize_out_file :: "string \<Rightarrow> string \<Rightarrow> string" where
  "memoize_out_file ext in_file = fst (splitext in_file) @ ext"

definition needs_run :: "world \<Rightarrow> string \<Rightarrow> bool" where
  "needs_run s out_file = (\<not> path_exists s out_file \<or> path_getsize s out_file = Inr 0)"

definition memoize_outfile ::
  "string \<Rightarrow> (string list \<Rightarrow> (string \<rightharpoonup> string) \<Rightarrow> world \<Rightarrow> 'r result) \<Rightarrow>
     string list \<Rightarrow> (string \<rightharpoonup> string) \<Rightarrow> world \<Rightarrow> string result" where
  "memoize_outfile ext f args kwargs s =
     (case memoize_in_file args kwargs of
        Inl e \<Rightarrow> (Inl e, s)
      | Inr in_file \<Rightarrow>
          (let out_file = memoize_out_file ext in_file in
           if needs_run s out_file then
             (case f args (kwargs(''out_file'' \<mapsto> out_file)) s of
                (Inl e, s1) \<Rightarrow> (Inl e, s1)
              | (Inr v, s1) \<Rightarrow> (Inr out_file, s1))
           else (Inr out_file, s)))"

subsection \<open>\<^verbatim>\<open>save_diskspace\<close>\<close>

definition placeholder :: "string \<Rightarrow> string" where
  "placeholder reason = ''File removed to save disk space: '' @ reason"

definition save_diskspace ::
  "string \<Rightarrow> string \<Rightarrow> (string \<rightharpoonup> (string \<rightharpoonup> pyval)) \<Rightarrow> world \<Rightarrow> unit result" where
  "save_diskspace fname reason config s =
     (case config ''algorithm'' of
        None \<Rightarrow> (Inl (KeyError ''algorithm''), s)
      | Some algorithm \<Rightarrow>
          if truthy (case algorithm ''save_diskspace'' of None \<Rightarrow> PyBool False | Some v \<Rightarrow> v)
          then write_file fname (placeholder reason) s
          else (Inr (), s))"

definition file_contents :: "world \<Rightarrow> string \<Rightarrow> string option" where
  "file_contents s p = (case lookup s p of Some (File c) \<Rightarrow> Some c | _ \<Rightarrow> None)"

section \<open>Concrete states and blocks\<close>

text \<open>
  A small machine on which the theorems below are run: a root, a working directory
  \<^verbatim>\<open>/w\<close>, the three standard descriptors open, two candidate names for \<^verbatim>\<open>tempfile\<close>
  (\<^verbatim>\<open>abcdef\<close> and \<^verbatim>\<open>ghijkl\<close>), no pool yet.
\<close>

definition world0 :: world where
  "world0 = \<lparr>files = [''/'' \<mapsto> Dir, ''/w'' \<mapsto> Dir], cwd = ''/w'', open_fds = [0, 1, 2],
     name_choices = [[0, 1, 2, 3, 4, 5], [6, 7, 8, 9, 10, 11]], pools = [],
     imap_patches = 0, has_multiprocessing = True\<rparr>"

text \<open>A block that raises at once, whatever mapper it is given.\<close>

definition raising :: "mapper \<Rightarrow> world \<Rightarrow> unit result" where
  "raising m w = (Inl (UserError ''boom''), w)"

text \<open>
  A function with a visible side effect: it returns ten times its argument and appends
  the argument to the list of descriptors, which serves as a log of the calls.
\<close>

definition logging :: "nat \<Rightarrow> world \<Rightarrow> nat \<times> world" where
  "logging x w = (10 * x, w\<lparr>open_fds := open_fds w @ [x]\<rparr>)"

text \<open>
  The same machine with a regular file \<^verbatim>\<open>/w/f\<close>, and another process that puts a node at
  a path.
\<close>

definition world_file :: world where
  "world_file = world0\<lparr>files := (files world0)(''/w/f'' \<mapsto> File ''data'')\<rparr>"

definition creator :: "string \<Rightarrow> node \<Rightarrow> world \<Rightarrow> world" where
  "creator p n w = w\<lparr>files := (files w)(p \<mapsto> n)\<rparr>"



definition config_bare :: "string \<rightharpoonup> (string \<rightharpoonup> pyval)" where
  "config_bare = [''algorithm'' \<mapsto> [''quality_format'' \<mapsto> PyStr ''Standard'']]"

definition producer :: "string list \<Rightarrow> (string \<rightharpoonup> string) \<Rightarrow> world \<Rightarrow> unit result" where
  "producer args kwargs w =
     (case kwargs ''out_file'' of
        None \<Rightarrow> (Inl (KeyError ''out_file''), w)
      | Some out \<Rightarrow> write_file out ''result'' w)"

definition failing :: "string list \<Rightarrow> (string \<rightharpoonup> string) \<Rightarrow> world \<Rightarrow> unit result" where
  "failing args kwargs w = (Inl (UserError ''boom''), w)"

text \<open>
  The machine with an input file \<^verbatim>\<open>/w/a.txt\<close>; then with a finished output
  \<^verbatim>\<open>/w/a.out\<close>; then with an empty output.
\<close>

definition world_a :: world where
  "world_a = world0\<lparr>files := (files world0)(''/w/a.txt'' \<mapsto> File ''input'')\<rparr>"

definition world_a_done :: world where
  "world_a_done = world_a\<lparr>files := (files world_a)(''/w/a.out'' \<mapsto> File ''result'')\<rparr>"

definition world_a_empty :: world where
  "world_a_empty = world_a\<lparr>files := (files world_a)(''/w/a.out'' \<mapsto> File [])\<rparr>"

text \<open>
  Blocks that raise: one that first leaves a file in the directory it is given, and one
  that does nothing else.
\<close>

definition littering :: "string \<Rightarrow> world \<Rightarrow> unit result" where
  "littering d w = (Inl (UserError ''boom''), creator (d @ ''/x'') (File ''t'') w)"

definition failing_in :: "'a \<Rightarrow> world \<Rightarrow> unit result" where
  "failing_in x w = (Inl (UserError ''boom''), w)"

section \<open>Properties of \<^verbatim>\<open>cpmap\<close>\<close>

lemma cpmap_normal_exit_terminates:
  assumes "\<not> truthy ipython" "cores \<noteq> PyStr ''ipython''" "py_int cores = Inr n" "1 < n"
    "has_multiprocessing s"
    "body (Pool_imap (length (pools s))) (snd (Pool n (s\<lparr>imap_patches := Suc (imap_patches s)\<rparr>))) = (Inr v, s2)"
    "length (pools s) < length (pools s2)"
  shows "cpmap cores ipython body s = (Inr v, terminate (length (pools s)) s2)"
    and "pool_terminated (snd (cpmap cores ipython body s)) (length (pools s))"
  using assms by (simp_all add: cpmap_def Pool_def terminate_def pool_terminated_def)

lemma cpmap_raise_skips_terminate:
  assumes "\<not> truthy ipython" "cores \<noteq> PyStr ''ipython''" "py_int cores = Inr n" "1 < n"
    "has_multiprocessing s"
    "body (Pool_imap (length (pools s))) (snd (Pool n (s\<lparr>imap_patches := Suc (imap_patches s)\<rparr>))) = (Inl e, s2)"
  shows "cpmap cores ipython body s = (Inl e, s2)"
  using assms by (simp add: cpmap_def Pool_def)

text \<open>
  Claim C1 (the pool of the multi-process mode is terminated on every exit from the
  scope, also when the block raises).  The code does not do this: with two cores and a
  block that raises, the exception propagates, the pool created on entry is still
  running afterwards and \<^verbatim>\<open>terminate\<close> was never called.  The scoped helpers of the same
  module wrap their \<^verbatim>\<open>yield\<close> in \<^verbatim>\<open>try ... finally\<close>; \<^verbatim>\<open>cpmap\<close> does not.
\<close>

theorem cpmap_raise_leaves_pool_running:
  "fst (cpmap (PyInt 2) (PyBool False) raising world0) = Inl (UserError ''boom'')
   \<and> pools (snd (cpmap (PyInt 2) (PyBool False) raising world0)) = [(2, Running)]
   \<and> \<not> pool_terminated (snd (cpmap (PyInt 2) (PyBool False) raising world0)) 0"
  by (simp add: cpmap_def Pool_def raising_def world0_def pool_terminated_def)

text \<open>
  Claim C3: whenever cluster mode is selected (\<^verbatim>\<open>ipython\<close> true, or \<^verbatim>\<open>cores\<close> equal to
  the string \<^verbatim>\<open>"ipython"\<close>), \<^verbatim>\<open>cpmap\<close> raises \<^verbatim>\<open>NotImplementedError\<close> at once: the state
  is untouched (no client, no pool) and the block is never run, whatever it is.
\<close>

theorem cluster_mode_not_implemented:
  "truthy ipython \<or> cores = PyStr ''ipython'' \<Longrightarrow>
     cpmap cores ipython body s = (Inl (NotImplementedError ''Not working yet''), s)"
  by (simp add: cpmap_def)

theorem cluster_mode_witness:
  "cpmap (PyStr ''ipython'') (PyBool False) (\<lambda>m w. (Inr (), w\<lparr>cwd := ''/elsewhere''\<rparr>)) world0
     = (Inl (NotImplementedError ''Not working yet''), world0)
   \<and> cpmap (PyInt 4) (PyBool True) raising world0
     = (Inl (NotImplementedError ''Not working yet''), world0)"
  using cluster_mode_not_implemented [of "PyBool False" "PyStr ''ipython''" "\<lambda>m w. (Inr (), w\<lparr>cwd := ''/elsewhere''\<rparr>)" world0]
    cluster_mode_not_implemented [of "PyBool True" "PyInt 4" raising world0]
  by simp

lemma drain_Nil: "drain (Imap_iter f []) s = (Inr [], s)"
  by (subst drain.simps) simp

lemma drain_Cons:
  "drain (Imap_iter f (x # xs)) s =
     (case f x s of
        (Inl e, s1) \<Rightarrow> if e = StopIteration then (Inr [], s1) else (Inl e, s1)
      | (Inr y, s1) \<Rightarrow>
          (case drain (Imap_iter f xs) s1 of
             (Inl e, s2) \<Rightarrow> (Inl e, s2)
           | (Inr ys, s2) \<Rightarrow> (Inr (y # ys), s2)))"
  by (subst drain.simps) (simp split: prod.splits sum.splits)

lemma drain_returning:
  "drain (Imap_iter (returning g) xs) s = (Inr (fst (in_order g xs s)), snd (in_order g xs s))"
proof (induction xs arbitrary: s)
  case Nil
  show ?case by (simp add: drain_Nil)
next
  case (Cons x xs)
  obtain y s1 where g: "g x s = (y, s1)" by (cases "g x s")
  have r: "returning g x s = (Inr y, s1)" by (simp add: returning_def g)
  show ?case
    by (simp add: drain_Cons r g Cons.IH split: prod.splits)
qed

lemma in_order_pure: "in_order (\<lambda>x w. (h x, w)) xs s = (map h xs, s)"
  by (induction xs arbitrary: s) simp_all

text \<open>
  Claim C2: with \<^verbatim>\<open>cores\<close> equal to 1 the block receives \<^verbatim>\<open>itertools.imap\<close> in an
  unchanged state; each \<^verbatim>\<open>next\<close> of the iterator applies \<open>f\<close> to one element, the first
  not yet consumed; consuming the iterator over \<open>[x1..xn]\<close> gives \<open>[f x1..f xn]\<close> and
  leaves the state that the calls \<open>f x1\<close>, ..., \<open>f xn\<close> made one after the other in this
  order leave (\<open>in_order\<close>); for a function without side effects the result is
  \<open>map h\<close> of the input.
\<close>

theorem sequential_mapper_in_order:
  assumes "\<not> truthy ipython" "cores \<noteq> PyStr ''ipython''" "py_int cores = Inr 1"
  shows "cpmap cores ipython body s = body Itertools_imap s
    \<and> imap_next (itertools_imap f (x # xs)) s = (fst (f x s), itertools_imap f xs, snd (f x s))
    \<and> drain (itertools_imap (returning g) ys) s = (Inr (fst (in_order g ys s)), snd (in_order g ys s))
    \<and> drain (itertools_imap (returning (\<lambda>x w. (h x, w))) ys) s = (Inr (map h ys), s)"
  using assms
  by (simp add: cpmap_def itertools_imap_def drain_returning in_order_pure split: prod.splits)

theorem sequential_mapper_witness:
  "cpmap (PyInt 1) (PyBool False) (\<lambda>m w. drain (itertools_imap (returning logging) [1, 2, 3]) w) world0
     = (Inr [10, 20, 30], world0\<lparr>open_fds := [0, 1, 2, 1, 2, 3]\<rparr>)
   \<and> imap_next (itertools_imap (returning logging) [1, 2, 3]) world0
     = (Inr 10, itertools_imap (returning logging) [2, 3], world0\<lparr>open_fds := [0, 1, 2, 1]\<rparr>)"
  using sequential_mapper_in_order [of "PyBool False" "PyInt 1"
      "\<lambda>m w. drain (itertools_imap (returning logging) [1, 2, 3]) w" world0
      "returning logging" 1 "[2, 3]" logging "[1, 2, 3]" id]
  by (simp add: returning_def logging_def world0_def)

section \<open>Properties of \<^verbatim>\<open>safe_makedir\<close>\<close>

lemma os_makedirs_raises:
  "os_makedirs p s = (Inl e, s1) \<Longrightarrow> (\<exists>n. e = OSError n) \<and> s1 = s"
  by (auto simp: os_makedirs_def Let_def split: if_splits)

lemma safe_makedir_exists:
  "path_exists s dname \<Longrightarrow> safe_makedir_racing others dname s = (Inr (), s)"
  by (simp add: safe_makedir_racing_def)

lemma ancestors_example: "ancestors ''/w/f/d'' = [''/w'', ''/w/f'']"
  by (simp add: ancestors_def)

text \<open>
  Claim C4, as the code has it: when the helper attempts the creation and
  \<^verbatim>\<open>os.makedirs\<close> fails, the helper returns successfully if the path is a directory by
  then, and otherwise raises \<^verbatim>\<open>AssertionError\<close> (the handler is an \<^verbatim>\<open>assert\<close>), not the
  \<^verbatim>\<open>OSError\<close> that \<^verbatim>\<open>os.makedirs\<close> raised.
\<close>

theorem safe_makedir_after_failed_creation:
  assumes "\<not> path_exists s dname" "os_makedirs dname (others s) = (Inl e, s1)"
  shows "safe_makedir_racing others dname s =
           (if path_isdir s1 dname then (Inr (), s1) else (Inl AssertionError, s1))"
proof -
  from os_makedirs_raises [OF assms(2)] obtain n where "e = OSError n" by blast
  with assms show ?thesis by (simp add: safe_makedir_racing_def)
qed

text \<open>
  Both outcomes at \<^verbatim>\<open>/w/d\<close>: another process creates the directory in the window (the
  helper returns), or puts a regular file there (the helper raises \<^verbatim>\<open>AssertionError\<close>).
\<close>

theorem safe_makedir_after_failed_creation_witness:
  "\<not> path_exists world0 ''/w/d''
   \<and> os_makedirs ''/w/d'' (creator ''/w/d'' Dir world0) = (Inl (OSError EEXIST), creator ''/w/d'' Dir world0)
   \<and> safe_makedir_racing (creator ''/w/d'' Dir) ''/w/d'' world0 = (Inr (), creator ''/w/d'' Dir world0)
   \<and> os_makedirs ''/w/d'' (creator ''/w/d'' (File ''x'') world0)
       = (Inl (OSError EEXIST), creator ''/w/d'' (File ''x'') world0)
   \<and> safe_makedir_racing (creator ''/w/d'' (File ''x'')) ''/w/d'' world0
       = (Inl AssertionError, creator ''/w/d'' (File ''x'') world0)"
proof -
  have a: "\<not> path_exists world0 ''/w/d''"
    by (simp add: path_exists_def lookup_def resolve_def world0_def)
  have b: "os_makedirs ''/w/d'' (creator ''/w/d'' Dir world0) = (Inl (OSError EEXIST), creator ''/w/d'' Dir world0)"
    by (simp add: os_makedirs_def resolve_def creator_def)
  have c: "os_makedirs ''/w/d'' (creator ''/w/d'' (File ''x'') world0)
       = (Inl (OSError EEXIST), creator ''/w/d'' (File ''x'') world0)"
    by (simp add: os_makedirs_def resolve_def creator_def)
  have d: "path_isdir (creator ''/w/d'' Dir world0) ''/w/d''"
    by (simp add: path_isdir_def lookup_def resolve_def creator_def)
  have e: "\<not> path_isdir (creator ''/w/d'' (File ''x'') world0) ''/w/d''"
    by (simp add: path_isdir_def lookup_def resolve_def creator_def)
  show ?thesis
    using safe_makedir_after_failed_creation [where others = "creator ''/w/d'' Dir" and s = world0, OF a b]
      safe_makedir_after_failed_creation [where others = "creator ''/w/d'' (File ''x'')" and s = world0, OF a c]
      a b c d e
    by simp
qed

text \<open>
  Claim C4 as stated fails: \<^verbatim>\<open>/w/f\<close> is a regular file, so \<^verbatim>\<open>os.makedirs("/w/f/d")\<close>
  raises \<^verbatim>\<open>OSError\<close> (\<^verbatim>\<open>ENOTDIR\<close>), the path is not a directory afterwards, and the helper
  raises \<^verbatim>\<open>AssertionError\<close> instead of that \<^verbatim>\<open>OSError\<close>.
\<close>

theorem safe_makedir_assertion_not_reraise:
  "\<not> path_exists world_file ''/w/f/d''
   \<and> os_makedirs ''/w/f/d'' world_file = (Inl (OSError ENOTDIR), world_file)
   \<and> \<not> path_isdir world_file ''/w/f/d''
   \<and> safe_makedir ''/w/f/d'' world_file = (Inl AssertionError, world_file)
   \<and> safe_makedir ''/w/f/d'' world_file \<noteq> (Inl (OSError ENOTDIR), world_file)"
  by (simp add: safe_makedir_def safe_makedir_racing_def path_exists_def path_isdir_def lookup_def
      resolve_def os_makedirs_def ancestors_example world_file_def world0_def)

text \<open>
  Claim C5, as the code has it: on a path where a regular file already is, the helper
  returns successfully; it attempts nothing and leaves the state as it was (the
  existence test guards the whole body).
\<close>

theorem safe_makedir_on_file_returns:
  "path_isfile s dname \<Longrightarrow> safe_makedir_racing others dname s = (Inr (), s)"
  by (rule safe_makedir_exists) (auto simp: path_isfile_def path_exists_def split: option.splits)

theorem safe_makedir_on_file_witness:
  "path_isfile world_file ''/w/f'' \<and> safe_makedir ''/w/f'' world_file = (Inr (), world_file)
   \<and> lookup world_file ''/w/f'' = Some (File ''data'')"
proof -
  have a: "path_isfile world_file ''/w/f''"
    by (simp add: path_isfile_def lookup_def resolve_def world_file_def world0_def)
  show ?thesis
    using safe_makedir_on_file_returns [OF a, of "\<lambda>w. w"] a
    by (simp add: safe_makedir_def lookup_def resolve_def world_file_def world0_def)
qed

text \<open>
  Claim C5 as stated fails: \<^verbatim>\<open>/w/f\<close> is a regular file, and \<^verbatim>\<open>safe_makedir("/w/f")\<close>
  returns without an error; the path is still not a directory.
\<close>

theorem safe_makedir_on_file_no_failure:
  "path_isfile world_file ''/w/f'' \<and> fst (safe_makedir ''/w/f'' world_file) = Inr ()
   \<and> \<not> path_isdir (snd (safe_makedir ''/w/f'' world_file)) ''/w/f''"
  by (simp add: safe_makedir_def safe_makedir_racing_def path_exists_def path_isfile_def path_isdir_def
      lookup_def resolve_def world_file_def world0_def)

section \<open>Properties of \<^verbatim>\<open>save_diskspace\<close>\<close>

lemma write_file_ok:
  "writable s p \<Longrightarrow> write_file p c s = (Inr (), s\<lparr>files := (files s)(resolve s p \<mapsto> File c)\<rparr>)"
  by (auto simp: writable_def write_file_def Let_def split: option.splits node.splits)


lemma write_file_raises:
  "write_file p c s = (Inl e, s1) \<Longrightarrow> (\<exists>n. e = IOError n) \<and> s1 = s"
  by (auto simp: write_file_def Let_def split: if_splits option.splits node.splits)

lemma not_writable_examples:
  "\<not> writable world0 ''/w/''" "\<not> writable world0 ''/w/.''" "\<not> writable world0 ''/w//new''"
  "\<not> writable world0 ''/missing/new''" "writable world0 ''/w/new''" "writable world0 ''new''"
  by (simp_all add: writable_def resolve_def path_join_def parent_dir_def basename_def world0_def)

lemma write_file_directory_named_with_slash:
  "write_file ''/w/'' c world0 = (Inl (IOError EISDIR), world0)"
  by (simp add: write_file_def resolve_def parent_dir_def basename_def world0_def)

text \<open>
  Claim C10: when the \<^verbatim>\<open>algorithm\<close> mapping of the configuration has no
  \<^verbatim>\<open>save_diskspace\<close> key, the helper returns normally (no \<^verbatim>\<open>KeyError\<close>) and changes
  nothing: \<^verbatim>\<open>.get("save_diskspace", False)\<close> supplies \<^verbatim>\<open>False\<close>.
\<close>

theorem save_diskspace_missing_key:
  "config ''algorithm'' = Some alg \<Longrightarrow> alg ''save_diskspace'' = None \<Longrightarrow>
     save_diskspace fname reason config s = (Inr (), s)"
  by (simp add: save_diskspace_def)

theorem save_diskspace_missing_key_witness:
  "config_bare ''algorithm'' = Some [''quality_format'' \<mapsto> PyStr ''Standard'']
   \<and> [''quality_format'' \<mapsto> PyStr ''Standard''] ''save_diskspace'' = None
   \<and> save_diskspace ''/w/f'' ''aligned'' config_bare world_file = (Inr (), world_file)
   \<and> file_contents world_file ''/w/f'' = Some ''data''"
  using save_diskspace_missing_key [of config_bare "[''quality_format'' \<mapsto> PyStr ''Standard'']"
      "''/w/f''" "''aligned''" world_file]
  by (simp add: config_bare_def file_contents_def lookup_def resolve_def world_file_def world0_def)



section \<open>Properties of \<^verbatim>\<open>splitext\<close> and \<^verbatim>\<open>memoize_outfile\<close>\<close>

lemma rfind_Nil: "rfind c [] = - 1"
  by (simp add: rfind_def)

lemma rfind_snoc: "rfind c (p @ [x]) = (if x = c then int (length p) else rfind c p)"
proof -
  have "filter (\<lambda>i. (p @ [x]) ! i = c) (rev [0..<length p]) = filter (\<lambda>i. p ! i = c) (rev [0..<length p])"
    by (rule filter_cong) (auto simp: nth_append)
  then show ?thesis by (simp add: rfind_def)
qed

lemma rfind_range: "- 1 \<le> rfind c p \<and> rfind c p < int (length p)"
  by (induction p rule: rev_induct) (auto simp: rfind_Nil rfind_snoc)

lemma rfind_hit: "0 \<le> rfind c p \<Longrightarrow> p ! nat (rfind c p) = c"
proof (induction p rule: rev_induct)
  case Nil
  then show ?case by (simp add: rfind_Nil)
next
  case (snoc x xs)
  then show ?case
    using rfind_range [of c xs]
    by (auto simp: rfind_snoc nth_append split: if_splits)
qed

lemma rfind_last: "rfind c p < int j \<Longrightarrow> j < length p \<Longrightarrow> p ! j \<noteq> c"
proof (induction p rule: rev_induct)
  case Nil
  then show ?case by simp
next
  case (snoc x xs)
  then show ?case
    using rfind_range [of c xs]
    by (auto simp: rfind_snoc nth_append less_Suc_eq split: if_splits)
qed

lemma splitext_append: "fst (splitext p) @ snd (splitext p) = p"
  by (simp add: splitext_def Let_def)

lemma splitext_ext:
  "snd (splitext p) = [] \<or>
     (hd (snd (splitext p)) = CHR ''.'' \<and> CHR ''.'' \<notin> set (tl (snd (splitext p)))
      \<and> CHR ''/'' \<notin> set (snd (splitext p)))"
proof (cases "rfind (CHR ''.'') p > rfind (CHR ''/'') p
    \<and> list_ex (\<lambda>i. p ! i \<noteq> CHR ''.'') [nat (rfind (CHR ''/'') p + 1)..<nat (rfind (CHR ''.'') p)]")
  case False
  then show ?thesis by (auto simp: splitext_def Let_def)
next
  case True
  define d where "d = nat (rfind (CHR ''.'') p)"
  have d0: "0 \<le> rfind (CHR ''.'') p" using True rfind_range [of "CHR ''/''" p] by linarith
  have dl: "d < length p" using rfind_range [of "CHR ''.''" p] d0 by (simp add: d_def)
  have e: "snd (splitext p) = drop d p" using True by (simp add: splitext_def Let_def d_def)
  have hd: "hd (drop d p) = CHR ''.''" using rfind_hit [OF d0] dl by (simp add: hd_drop_conv_nth d_def)
  have nodot: "CHR ''.'' \<notin> set (drop (Suc d) p)"
  proof
    assume "CHR ''.'' \<in> set (drop (Suc d) p)"
    then obtain k where k: "k < length (drop (Suc d) p)" "drop (Suc d) p ! k = CHR ''.''"
      by (auto simp: in_set_conv_nth)
    then have "p ! (Suc d + k) = CHR ''.''" "Suc d + k < length p" by auto
    moreover have "rfind (CHR ''.'') p < int (Suc d + k)" using d0 by (simp add: d_def)
    ultimately show False using rfind_last by blast
  qed
  have noslash: "CHR ''/'' \<notin> set (drop d p)"
  proof
    assume "CHR ''/'' \<in> set (drop d p)"
    then obtain k where k: "k < length (drop d p)" "drop d p ! k = CHR ''/''"
      by (auto simp: in_set_conv_nth)
    then have "p ! (d + k) = CHR ''/''" "d + k < length p" by auto
    moreover have "rfind (CHR ''/'') p < int (d + k)" using True d0 by (simp add: d_def)
    ultimately show False using rfind_last by blast
  qed
  show ?thesis using hd nodot noslash by (simp add: e drop_Suc tl_drop)
qed

lemma rfind_eqI:
  assumes "- 1 \<le> k" "k < int (length p)" "0 \<le> k \<Longrightarrow> p ! nat k = c"
    "\<And>j. k < int j \<Longrightarrow> j < length p \<Longrightarrow> p ! j \<noteq> c"
  shows "rfind c p = k"
proof (rule ccontr)
  assume "rfind c p \<noteq> k"
  then consider "rfind c p < k" | "k < rfind c p" by linarith
  then show False
  proof cases
    case 1
    then have k: "0 \<le> k" using rfind_range [of c p] by linarith
    have "p ! nat k \<noteq> c"
      using 1 k assms(2) by (intro rfind_last) auto
    then show False using assms(3) [OF k] by simp
  next
    case 2
    then have r: "0 \<le> rfind c p" using assms(1) by linarith
    have "p ! nat (rfind c p) \<noteq> c"
      using 2 r rfind_range [of c p] by (intro assms(4)) auto
    then show False using rfind_hit [OF r] by simp
  qed
qed

lemma rfind_append_absent: "c \<notin> set t \<Longrightarrow> rfind c (r @ t) = rfind c r"
proof (induction t rule: rev_induct)
  case Nil
  show ?case by simp
next
  case (snoc x xs)
  then show ?case
    using rfind_snoc [of c "r @ xs" x] by auto
qed

lemma rfind_take:
  assumes "rfind c p < int d" "d \<le> length p"
  shows "rfind c (take d p) = rfind c p"
proof -
  have "c \<notin> set (drop d p)"
  proof
    assume "c \<in> set (drop d p)"
    then obtain k where k: "k < length (drop d p)" "drop d p ! k = c"
      by (auto simp: in_set_conv_nth)
    then have "p ! (d + k) = c" "d + k < length p" by auto
    moreover have "rfind c p < int (d + k)" using assms(1) by simp
    ultimately show False using rfind_last by blast
  qed
  from rfind_append_absent [OF this, of "take d p"] show ?thesis by simp
qed

lemma basename_snoc:
  "basename (p @ [x]) = (if x = CHR ''/'' then [] else basename p @ [x])"
  by (simp add: basename_def)

lemma basename_rfind: "basename p = drop (nat (rfind (CHR ''/'') p + 1)) p"
proof (induction p rule: rev_induct)
  case Nil
  show ?case by (simp add: basename_def)
next
  case (snoc x xs)
  show ?case
    using rfind_range [of "CHR ''/''" xs] snoc.IH
    by (auto simp: basename_snoc rfind_snoc)
qed

lemma rfind_dot_at:
  "CHR ''.'' \<notin> set t \<Longrightarrow> rfind (CHR ''.'') (r @ CHR ''.'' # t) = int (length r)"
  using rfind_append_absent [of "CHR ''.''" t "r @ ''.''"] by (simp add: rfind_snoc)

lemma splitext_some:
  assumes "snd (splitext p) \<noteq> []"
  shows "\<not> dots_only (fst (splitext p))"
proof -
  let ?sep = "rfind (CHR ''/'') p" and ?dot = "rfind (CHR ''.'') p"
  have c: "?dot > ?sep \<and> list_ex (\<lambda>i. p ! i \<noteq> CHR ''.'') [nat (?sep + 1)..<nat ?dot]"
    using assms by (auto simp: splitext_def Let_def split: if_splits)
  then obtain i where i: "nat (?sep + 1) \<le> i" "i < nat ?dot" "p ! i \<noteq> CHR ''.''"
    by (auto simp: list_ex_iff)
  have dl: "nat ?dot < length p" using rfind_range [of "CHR ''.''" p] c i by linarith
  have root: "fst (splitext p) = take (nat ?dot) p"
    using c by (simp add: splitext_def Let_def)
  have "rfind (CHR ''/'') (take (nat ?dot) p) = ?sep"
    using c i dl by (intro rfind_take) auto
  then have b: "basename (take (nat ?dot) p) = drop (nat (?sep + 1)) (take (nat ?dot) p)"
    by (simp add: basename_rfind)
  have "i - nat (?sep + 1) < length (drop (nat (?sep + 1)) (take (nat ?dot) p))"
    using i dl by simp
  moreover have "drop (nat (?sep + 1)) (take (nat ?dot) p) ! (i - nat (?sep + 1)) = p ! i"
    using i dl by simp
  ultimately have "\<exists>c \<in> set (basename (take (nat ?dot) p)). c \<noteq> CHR ''.''"
    unfolding b using i(3) by (metis nth_mem)
  then show ?thesis
    by (auto simp: dots_only_def root list_all_iff)
qed

lemma splitext_none:
  assumes "snd (splitext p) = []" "p = r @ CHR ''.'' # t" "CHR ''.'' \<notin> set t" "CHR ''/'' \<notin> set t"
  shows "dots_only r"
proof -
  let ?sep = "rfind (CHR ''/'') p" and ?dot = "rfind (CHR ''.'') p"
  have dot: "?dot = int (length r)" using assms(2,3) by (simp add: rfind_dot_at)
  have sep: "?sep = rfind (CHR ''/'') r"
    using rfind_append_absent [of "CHR ''/''" "CHR ''.'' # t" r] assms(2,4) by simp
  have lt: "?sep < ?dot" using rfind_range [of "CHR ''/''" r] by (simp add: dot sep)
  have nosplit: "\<not> list_ex (\<lambda>i. p ! i \<noteq> CHR ''.'') [nat (?sep + 1)..<nat ?dot]"
  proof
    assume "list_ex (\<lambda>i. p ! i \<noteq> CHR ''.'') [nat (?sep + 1)..<nat ?dot]"
    with lt have "snd (splitext p) = drop (nat ?dot) p" by (simp add: splitext_def Let_def)
    then have "snd (splitext p) = drop (length r) p" by (simp only: dot nat_int)
    moreover have "drop (length r) p = CHR ''.'' # t" by (simp add: assms(2))
    ultimately show False using assms(1) by simp
  qed
  have "c = CHR ''.''" if "c \<in> set (drop (nat (?sep + 1)) r)" for c
  proof -
    from that obtain k where k: "k < length r - nat (?sep + 1)" "c = r ! (nat (?sep + 1) + k)"
      by (auto simp: in_set_conv_nth)
    then have "nat (?sep + 1) + k \<in> set [nat (?sep + 1)..<nat ?dot]" by (simp add: dot)
    with nosplit have "p ! (nat (?sep + 1) + k) = CHR ''.''" by (auto simp: list_ex_iff)
    moreover have "nat (?sep + 1) + k < length r" using k(1) by linarith
    then have "p ! (nat (?sep + 1) + k) = r ! (nat (?sep + 1) + k)"
      unfolding assms(2) by (rule nth_append_left)
    ultimately show ?thesis using k(2) by simp
  qed
  then show ?thesis
    by (simp add: dots_only_def basename_rfind sep [symmetric] list_all_iff)
qed

lemma splitext_split:
  "snd (splitext p) \<noteq> [] \<Longrightarrow>
     hd (snd (splitext p)) = CHR ''.'' \<and> CHR ''.'' \<notin> set (tl (snd (splitext p)))
     \<and> CHR ''/'' \<notin> set (snd (splitext p)) \<and> \<not> dots_only (fst (splitext p))"
  using splitext_ext [of p] splitext_some [of p] by blast

text \<open>
  The two facts above fix \<^verbatim>\<open>splitext\<close>: a cut of a path into a root and an extension
  that meets them is the one \<^verbatim>\<open>splitext\<close> makes.  So they say what the extension of a
  path is: the last dot of the file name and what follows it, when something other than
  dots comes before that dot in the file name, and nothing otherwise.
\<close>

lemma extension_determined:
  assumes "p = root @ e"
    and "e \<noteq> [] \<longrightarrow> hd e = CHR ''.'' \<and> CHR ''.'' \<notin> set (tl e) \<and> CHR ''/'' \<notin> set e
          \<and> \<not> dots_only root"
    and "e = [] \<longrightarrow> (\<forall>r t. p = r @ CHR ''.'' # t \<and> CHR ''.'' \<notin> set t \<and> CHR ''/'' \<notin> set t
          \<longrightarrow> dots_only r)"
  shows "splitext p = (root, e)"
proof (cases "e = []")
  case True
  have "snd (splitext p) = []"
  proof (rule ccontr)
    assume ne: "snd (splitext p) \<noteq> []"
    then obtain t where t: "snd (splitext p) = CHR ''.'' # t"
      using splitext_split [OF ne] by (cases "snd (splitext p)") auto
    have "p = fst (splitext p) @ CHR ''.'' # t"
      using splitext_append [of p] by (simp add: t)
    moreover have "CHR ''.'' \<notin> set t" "CHR ''/'' \<notin> set t"
      using splitext_split [OF ne] by (simp_all add: t)
    ultimately have "dots_only (fst (splitext p))"
      using assms(3) True by blast
    then show False using splitext_split [OF ne] by simp
  qed
  then show ?thesis
    using splitext_append [of p] assms(1) True by (simp add: prod_eq_iff)
next
  case False
  then obtain t where e: "e = CHR ''.'' # t" and t: "CHR ''.'' \<notin> set t" "CHR ''/'' \<notin> set t"
    and nd: "\<not> dots_only root"
    using assms(2) by (cases e) auto
  have ne: "snd (splitext p) \<noteq> []"
  proof
    assume "snd (splitext p) = []"
    from splitext_none [OF this _ t, of root] assms(1) e nd show False by simp
  qed
  then obtain t' where t': "snd (splitext p) = CHR ''.'' # t'"
    using splitext_split [OF ne] by (cases "snd (splitext p)") auto
  have nodot: "CHR ''.'' \<notin> set t'" using splitext_split [OF ne] by (simp add: t')
  have p': "p = fst (splitext p) @ CHR ''.'' # t'"
    using splitext_append [of p] by (simp add: t')
  have "int (length root) = rfind (CHR ''.'') p"
    using rfind_dot_at [OF t(1), of root] assms(1) e by simp
  also have "\<dots> = int (length (fst (splitext p)))"
    using rfind_dot_at [OF nodot, of "fst (splitext p)"] p' by simp
  finally have "length root = length (fst (splitext p))" by simp
  then have "root = fst (splitext p) \<and> e = snd (splitext p)"
    using assms(1) splitext_append [of p] by (metis append_eq_append_conv)
  then show ?thesis by (simp add: prod_eq_iff)
qed

lemma memoize_in_file_cases:
  "args = in_file # rest \<or> (args = [] \<and> kwargs ''in_file'' = Some in_file) \<Longrightarrow>
     memoize_in_file args kwargs = Inr in_file"
  by (auto simp: memoize_in_file_def)

lemma memoize_out_file_ext:
  "\<exists>root e. in_file = root @ e \<and> memoize_out_file ext in_file = root @ ext
     \<and> (e \<noteq> [] \<longrightarrow> hd e = CHR ''.'' \<and> CHR ''.'' \<notin> set (tl e) \<and> CHR ''/'' \<notin> set e
           \<and> \<not> dots_only root)
     \<and> (e = [] \<longrightarrow> (\<forall>r t. in_file = r @ CHR ''.'' # t \<and> CHR ''.'' \<notin> set t \<and> CHR ''/'' \<notin> set t
           \<longrightarrow> dots_only r))"
proof -
  let ?root = "fst (splitext in_file)" and ?e = "snd (splitext in_file)"
  have 1: "in_file = ?root @ ?e" by (simp add: splitext_append)
  have 2: "memoize_out_file ext in_file = ?root @ ext" by (simp add: memoize_out_file_def)
  have 3: "?e \<noteq> [] \<longrightarrow> hd ?e = CHR ''.'' \<and> CHR ''.'' \<notin> set (tl ?e) \<and> CHR ''/'' \<notin> set ?e
      \<and> \<not> dots_only ?root"
    using splitext_split [of in_file] by blast
  have 4: "?e = [] \<longrightarrow> (\<forall>r t. in_file = r @ CHR ''.'' # t \<and> CHR ''.'' \<notin> set t \<and> CHR ''/'' \<notin> set t
      \<longrightarrow> dots_only r)"
    using splitext_none [of in_file] by blast
  from 1 2 3 4 show ?thesis by blast
qed

text \<open>
  Claim C6.  For a call whose input file is the first positional argument or the
  \<^verbatim>\<open>in_file\<close> keyword argument:
  \<^item> the output path is the input path with its extension replaced by \<open>ext\<close>: the input
    is a root followed by its extension, the output is that root followed by \<open>ext\<close>.
    The extension is the last dot of the file name with what follows it (no further
    dot, no slash) when the root's file name does not consist of dots only; it is
    empty only if no such cut of the input exists;
  \<^item> the wrapped function is called, once and with \<^verbatim>\<open>out_file\<close> added to its keyword
    arguments, exactly when the output path does not exist or has size zero; otherwise
    nothing is called and nothing changes;
  \<^item> the call returns the output path, whether the wrapped function was skipped or was
    run and returned (an exception of the wrapped function propagates unchanged, as the
    module passes every failure through).
\<close>

theorem memoize_outfile_contract:
  assumes "args = in_file # rest \<or> (args = [] \<and> kwargs ''in_file'' = Some in_file)"
  shows "(\<exists>root e. in_file = root @ e \<and> memoize_out_file ext in_file = root @ ext
            \<and> (e \<noteq> [] \<longrightarrow> hd e = CHR ''.'' \<and> CHR ''.'' \<notin> set (tl e) \<and> CHR ''/'' \<notin> set e
                  \<and> \<not> dots_only root)
            \<and> (e = [] \<longrightarrow> (\<forall>r t. in_file = r @ CHR ''.'' # t \<and> CHR ''.'' \<notin> set t
                  \<and> CHR ''/'' \<notin> set t \<longrightarrow> dots_only r)))
       \<and> memoize_outfile ext f args kwargs s =
           (if \<not> path_exists s (memoize_out_file ext in_file)
               \<or> path_getsize s (memoize_out_file ext in_file) = Inr 0
            then (case f args (kwargs(''out_file'' \<mapsto> memoize_out_file ext in_file)) s of
                    (Inl e, s1) \<Rightarrow> (Inl e, s1)
                  | (Inr v, s1) \<Rightarrow> (Inr (memoize_out_file ext in_file), s1))
            else (Inr (memoize_out_file ext in_file), s))
       \<and> ((\<forall>e. fst (f args (kwargs(''out_file'' \<mapsto> memoize_out_file ext in_file)) s) \<noteq> Inl e)
            \<longrightarrow> fst (memoize_outfile ext f args kwargs s) = Inr (memoize_out_file ext in_file))"
proof -
  have i: "memoize_in_file args kwargs = Inr in_file"
    using assms by (rule memoize_in_file_cases)
  let ?out = "memoize_out_file ext in_file"
  let ?call = "f args (kwargs(''out_file'' \<mapsto> ?out)) s"
  have eq: "memoize_outfile ext f args kwargs s =
           (if \<not> path_exists s ?out \<or> path_getsize s ?out = Inr 0
            then (case ?call of (Inl e, s1) \<Rightarrow> (Inl e, s1) | (Inr v, s1) \<Rightarrow> (Inr ?out, s1))
            else (Inr ?out, s))"
    by (simp add: memoize_outfile_def i needs_run_def Let_def)
  have ret: "fst (memoize_outfile ext f args kwargs s) = Inr ?out"
    if "\<forall>e. fst ?call \<noteq> Inl e"
  proof -
    obtain r s1 where c: "?call = (r, s1)" by (cases ?call)
    with that obtain v where "r = Inr v" by (cases r) auto
    with c show ?thesis by (simp add: eq)
  qed
  show ?thesis
    using memoize_out_file_ext [of in_file ext] eq ret by blast
qed

lemma out_paths:
  "memoize_out_file ''.out'' ''/w/a.txt'' = ''/w/a.out''"
  "memoize_out_file ''.out'' ''/w/a.tar.gz'' = ''/w/a.tar.out''"
  "memoize_out_file ''.out'' ''/w/.bashrc'' = ''/w/.bashrc.out''"
  "memoize_out_file ''.out'' ''/d.x/a'' = ''/d.x/a.out''"
  by (simp_all add: memoize_out_file_def splitext_def rfind_def Let_def)

text \<open>
  The decorator on the small machine, with extension \<^verbatim>\<open>.out\<close> and input \<^verbatim>\<open>/w/a.txt\<close>:
  no output yet, the wrapped function runs and \<^verbatim>\<open>/w/a.out\<close> comes back; a finished
  output, the wrapped function (one that would raise) is not run and \<^verbatim>\<open>/w/a.out\<close> comes
  back; an empty output, the wrapped function runs again.
\<close>

theorem memoize_outfile_contract_witness:
  "memoize_out_file ''.out'' ''/w/a.txt'' = ''/w/a.out''
   \<and> splitext ''/w/a.txt'' = (''/w/a'', ''.txt'')
   \<and> fst (memoize_outfile ''.out'' producer [''/w/a.txt''] Map.empty world_a) = Inr ''/w/a.out''
   \<and> file_contents (snd (memoize_outfile ''.out'' producer [''/w/a.txt''] Map.empty world_a)) ''/w/a.out''
       = Some ''result''
   \<and> memoize_outfile ''.out'' failing [] [''in_file'' \<mapsto> ''/w/a.txt''] world_a_done
       = (Inr ''/w/a.out'', world_a_done)
   \<and> fst (memoize_outfile ''.out'' producer [''/w/a.txt''] Map.empty world_a_empty) = Inr ''/w/a.out''
   \<and> file_contents (snd (memoize_outfile ''.out'' producer [''/w/a.txt''] Map.empty world_a_empty)) ''/w/a.out''
       = Some ''result''"
proof -
  have 1: "\<not> path_exists world_a ''/w/a.out''"
    by (simp add: path_exists_def lookup_def resolve_def world_a_def world0_def)
  have 2: "path_exists world_a_done ''/w/a.out'' \<and> path_getsize world_a_done ''/w/a.out'' = Inr 6"
    by (simp add: path_exists_def path_getsize_def lookup_def resolve_def world_a_done_def)
  have 3: "path_getsize world_a_empty ''/w/a.out'' = Inr 0"
    by (simp add: path_getsize_def lookup_def resolve_def world_a_empty_def)
  have w4: "writable world_a ''/w/a.out''"
    by (simp add: writable_def resolve_def path_join_def parent_dir_def basename_def
        world_a_def world0_def)
  have 4: "producer [''/w/a.txt''] [''out_file'' \<mapsto> ''/w/a.out''] world_a
      = (Inr (), world_a\<lparr>files := (files world_a)(''/w/a.out'' \<mapsto> File ''result'')\<rparr>)"
    using write_file_ok [OF w4] by (simp add: producer_def resolve_def)
  have w5: "writable world_a_empty ''/w/a.out''"
    by (simp add: writable_def resolve_def world_a_empty_def)
  have 5: "producer [''/w/a.txt''] [''out_file'' \<mapsto> ''/w/a.out''] world_a_empty
      = (Inr (), world_a_empty\<lparr>files := (files world_a_empty)(''/w/a.out'' \<mapsto> File ''result'')\<rparr>)"
    using write_file_ok [OF w5] by (simp add: producer_def resolve_def)
  have sp: "splitext ''/w/a.txt'' = (''/w/a'', ''.txt'')"
    by (simp add: splitext_def rfind_def Let_def)
  note c1 = memoize_outfile_contract [of "[''/w/a.txt'']" "''/w/a.txt''" "[]" Map.empty "''.out''" producer world_a]
  note c2 = memoize_outfile_contract [of "[]" "''/w/a.txt''" "[]" "[''in_file'' \<mapsto> ''/w/a.txt'']" "''.out''" failing world_a_done]
  note c3 = memoize_outfile_contract [of "[''/w/a.txt'']" "''/w/a.txt''" "[]" Map.empty "''.out''" producer world_a_empty]
  have r1: "memoize_outfile ''.out'' producer [''/w/a.txt''] Map.empty world_a
      = (Inr ''/w/a.out'', world_a\<lparr>files := (files world_a)(''/w/a.out'' \<mapsto> File ''result'')\<rparr>)"
    using c1 1 by (simp add: out_paths 4)
  have r2: "memoize_outfile ''.out'' failing [] [''in_file'' \<mapsto> ''/w/a.txt''] world_a_done
      = (Inr ''/w/a.out'', world_a_done)"
    using c2 2 by (simp add: out_paths)
  have r3: "memoize_outfile ''.out'' producer [''/w/a.txt''] Map.empty world_a_empty
      = (Inr ''/w/a.out'', world_a_empty\<lparr>files := (files world_a_empty)(''/w/a.out'' \<mapsto> File ''result'')\<rparr>)"
    using c3 3 by (simp add: out_paths 5)
  show ?thesis
    by (simp add: r1 r2 r3 sp out_paths file_contents_def lookup_def resolve_def)
qed

text \<open>
  A wrapped function that raises: its exception comes out of the call unchanged, as every
  failure in this module is passed through.
\<close>

lemma memoize_outfile_raise_propagates:
  "memoize_outfile ''.out'' failing [''/w/a.txt''] Map.empty world_a = (Inl (UserError ''boom''), world_a)"
  by (simp add: memoize_outfile_def memoize_in_file_def out_paths needs_run_def failing_def
      path_exists_def lookup_def resolve_def world_a_def world0_def)

section \<open>Properties of the scoped helpers\<close>

lemma resolve_abs: "is_abs p \<Longrightarrow> resolve s p = p"
  by (simp add: resolve_def is_abs_def)

lemma lookup_abs: "is_abs p \<Longrightarrow> lookup s p = files s p"
  by (auto simp: lookup_def resolve_abs is_abs_def)

lemma tmp_name_no_slash: "CHR ''/'' \<notin> set (tmp_name c)"
proof -
  have "CHR ''/'' \<notin> set tmp_chars" by (simp add: tmp_chars_def)
  moreover have "tmp_chars ! (i mod length tmp_chars) \<in> set tmp_chars" for i
    by (rule nth_mem) (simp add: tmp_chars_def)
  ultimately show ?thesis by (auto simp: tmp_name_def)
qed

lemma parent_dir_join:
  assumes "CHR ''/'' \<notin> set n" "b \<noteq> []" "last b \<noteq> CHR ''/''"
  shows "parent_dir (b @ ''/'' @ n) = b"
proof -
  have 1: "dropWhile (\<lambda>c. c \<noteq> CHR ''/'') (rev n @ CHR ''/'' # rev b) = CHR ''/'' # rev b"
    using assms(1) by (auto simp: dropWhile_append3)
  obtain ys y where b: "b = ys @ [y]" "y \<noteq> CHR ''/''"
    using assms(2,3) by (cases b rule: rev_cases) auto
  have 2: "\<not> list_all (\<lambda>c. c = CHR ''/'') (b @ ''/'')"
    using b by simp
  have 3: "dropWhile (\<lambda>c. c = CHR ''/'') (rev b) = rev b"
    using b by simp
  show ?thesis
    using 2 by (simp add: parent_dir_def 1 3 Let_def)
qed

lemma path_join_rel:
  "b \<noteq> [] \<Longrightarrow> last b \<noteq> CHR ''/'' \<Longrightarrow> n \<noteq> [] \<Longrightarrow> hd n \<noteq> CHR ''/'' \<Longrightarrow>
     path_join b n = b @ ''/'' @ n"
  by (simp add: path_join_def)

lemma base_props:
  assumes "is_abs c"
  shows "is_abs (path_join c ''tmp'')" "path_join c ''tmp'' \<noteq> []" "last (path_join c ''tmp'') \<noteq> CHR ''/''"
  using assms by (auto simp: path_join_def is_abs_def)


lemma safe_makedir_frame:
  "safe_makedir p s = (r, s1) \<Longrightarrow>
     cwd s1 = cwd s \<and> open_fds s1 = open_fds s \<and> name_choices s1 = name_choices s"
  by (auto simp: safe_makedir_def safe_makedir_racing_def os_makedirs_def Let_def
      split: if_splits exn.splits)

lemma os_mkdir_at:
  assumes "is_abs b" "last b \<noteq> CHR ''/''" "CHR ''/'' \<notin> set n"
  shows "os_mkdir (b @ ''/'' @ n) s =
     (if files s (b @ ''/'' @ n) \<noteq> None then (Inl (OSError EEXIST), s)
      else (case files s b of
              None \<Rightarrow> (Inl (OSError ENOENT), s)
            | Some (File c) \<Rightarrow> (Inl (OSError ENOTDIR), s)
            | Some Dir \<Rightarrow> (Inr (), s\<lparr>files := (files s)(b @ ''/'' @ n \<mapsto> Dir)\<rparr>)))"
proof -
  have a: "is_abs (b @ ''/'' @ n)" using assms(1) by (simp add: is_abs_def)
  have p: "parent_dir (b @ ''/'' @ n) = b"
    using assms by (intro parent_dir_join) (auto simp: is_abs_def)
  show ?thesis
    unfolding os_mkdir_def Let_def resolve_abs [OF a] p by simp
qed

lemma mkdtemp_try_props:
  assumes "mkdtemp_try b cs s = (Inr d, s2)" "is_abs b" "last b \<noteq> CHR ''/''"
  shows "(\<exists>c. d = b @ ''/'' @ ''tmp'' @ tmp_name c) \<and> files s2 = (files s)(d \<mapsto> Dir)
       \<and> files s b = Some Dir \<and> files s d = None \<and> cwd s2 = cwd s \<and> open_fds s2 = open_fds s"
  using assms(1)
proof (induction cs arbitrary: s)
  case Nil
  then show ?case by simp
next
  case (Cons c cs)
  let ?file = "b @ ''/'' @ (''tmp'' @ tmp_name c)"
  let ?s1 = "s\<lparr>name_choices := cs\<rparr>"
  have j: "path_join b (''tmp'' @ tmp_name c) = ?file"
    using assms(2,3) by (simp add: path_join_def is_abs_def)
  have ns: "CHR ''/'' \<notin> set (''tmp'' @ tmp_name c)"
    using tmp_name_no_slash [of c] by simp
  note mk = os_mkdir_at [OF assms(2,3) ns, of ?s1]
  show ?case
  proof (cases "files s ?file \<noteq> None")
    case True
    then have "mkdtemp_try b cs ?s1 = (Inr d, s2)"
      using Cons.prems by (simp add: j mk Let_def del: append.simps)
    from Cons.IH [OF this] show ?thesis by simp
  next
    case False
    show ?thesis
    proof (cases "files s b")
      case None
      then show ?thesis
        using Cons.prems False by (simp add: j mk Let_def del: append.simps)
    next
      case (Some nd)
      then show ?thesis
        using Cons.prems False
        by (cases nd) (auto simp: j mk Let_def simp del: append.simps)
    qed
  qed
qed

lemma curdir_tmpdir_enter_props:
  assumes "curdir_tmpdir_enter s = (Inr d, s1)" "is_abs (cwd s)"
  shows "is_abs d" "files s1 d = Some Dir" "files s1 (path_join (cwd s) ''tmp'') = Some Dir"
    "path_under (path_join (cwd s) ''tmp'') d" "cwd s1 = cwd s"
    "d \<noteq> path_join (cwd s) ''tmp''" "\<not> path_under d (path_join (cwd s) ''tmp'')"
proof -
  let ?b = "path_join (cwd s) ''tmp''"
  note bp = base_props [OF assms(2)]
  from assms(1) obtain u sa sb where
    a: "safe_makedir ?b s = (Inr u, sa)" and
    b: "tempfile_mkdtemp ?b sa = (Inr d, sb)" and
    c: "safe_makedir d sb = (Inr (), s1)"
    by (auto simp: curdir_tmpdir_enter_def os_getcwd_def Let_def split: prod.splits sum.splits)
  from b have "mkdtemp_try ?b (name_choices sa) sa = (Inr d, sb)"
    by (simp add: tempfile_mkdtemp_def)
  from mkdtemp_try_props [OF this bp(1) bp(3)] obtain n where
    d: "d = ?b @ ''/'' @ ''tmp'' @ tmp_name n" and
    f: "files sb = (files sa)(d \<mapsto> Dir)" "files sa ?b = Some Dir" "cwd sb = cwd sa"
    by blast
  show abs: "is_abs d" using bp(1) by (simp add: d is_abs_def)
  have "path_exists sb d" by (simp add: path_exists_def lookup_abs [OF abs] f)
  with c have s1: "s1 = sb" by (simp add: safe_makedir_def safe_makedir_racing_def)
  show "files s1 d = Some Dir" by (simp add: s1 f)
  show ne: "d \<noteq> ?b" by (simp add: d)
  show "files s1 ?b = Some Dir" using ne by (simp add: s1 f)
  show "path_under ?b d" by (simp add: path_under_def d)
  show "cwd s1 = cwd s" using safe_makedir_frame [OF a] by (simp add: s1 f)
  show "\<not> path_under d ?b"
  proof
    assume "path_under d ?b"
    then have "length (d @ ''/'') \<le> length ?b"
      unfolding path_under_def by (metis length_take min.cobounded1)
    then show False by (simp add: d)
  qed
qed

lemma try_finally_state: "snd (try_finally body cleanup s) = snd (cleanup (snd (body s)))"
  by (simp add: try_finally_def split: prod.splits sum.splits)

lemma try_finally_outcome:
  "fst (cleanup (snd (body s))) = Inr u \<Longrightarrow> fst (try_finally body cleanup s) = fst (body s)"
  by (auto simp: try_finally_def split: prod.splits sum.splits)

lemma rmtree_effect:
  assumes "is_abs d"
  shows "\<not> path_isdir (snd (shutil_rmtree d s)) d"
    and "path_isdir s d \<Longrightarrow> fst (shutil_rmtree d s) = Inr ()"
    and "path_isdir s d \<Longrightarrow> \<not> path_exists (snd (shutil_rmtree d s)) d"
    and "path_isdir s d \<Longrightarrow> path_under d q \<Longrightarrow> files (snd (shutil_rmtree d s)) q = None"
    and "q \<noteq> d \<Longrightarrow> \<not> path_under d q \<Longrightarrow> files (snd (shutil_rmtree d s)) q = files s q"
    and "cwd (snd (shutil_rmtree d s)) = cwd s"
  using assms
  by (auto simp: shutil_rmtree_def path_isdir_def path_exists_def lookup_abs resolve_abs Let_def
      split: option.splits node.splits)

lemma tmpfile_exit_effect:
  shows "fd \<notin> set (open_fds (snd (tmpfile_exit fd fname s)))"
    and "fd \<in> set (open_fds s) \<Longrightarrow> \<not> path_isfile (snd (tmpfile_exit fd fname s)) fname"
  by (auto simp: tmpfile_exit_def os_close_def os_remove_def path_exists_def path_isfile_def
      lookup_def resolve_def split: option.splits node.splits)

lemma chdir_enter_cur: "chdir_enter new_dir s = (Inr cur, s1) \<Longrightarrow> cur = cwd s"
  by (auto simp: chdir_enter_def os_getcwd_def Let_def split: prod.splits sum.splits)

lemma os_chdir_back:
  "is_abs cur \<Longrightarrow> path_isdir s cur \<Longrightarrow> os_chdir cur s = (Inr (), s\<lparr>cwd := cur\<rparr>)"
  by (simp add: os_chdir_def path_isdir_def resolve_abs)

text \<open>
  Claim C8.  Each scoped helper runs its cleanup on the state the block left, whether the
  block returned or raised (the \<^verbatim>\<open>finally\<close> clause), and the cleanup releases the
  resource that is still held:
  \<^item> \<^verbatim>\<open>curdir_tmpdir\<close>: the temporary directory is not a directory afterwards; if it
    still was one when the block ended, it is gone with everything below it, and the
    block's outcome (its value or its exception) is the outcome of the scope;
  \<^item> \<^verbatim>\<open>tmpfile\<close>: the descriptor is not open afterwards; if it still was open when the
    block ended, no regular file is left at the temporary file's path;
  \<^item> \<^verbatim>\<open>chdir\<close>: if the directory recorded on entry still is a directory when the block
    ends, the working directory afterwards is the one before the scope, and the block's
    outcome is the outcome of the scope.
\<close>

theorem scoped_helpers_release:
  assumes "is_abs (cwd s)"
  shows "(curdir_tmpdir_enter s = (Inr d, sd) \<longrightarrow>
            snd (curdir_tmpdir bodyd s) = snd (shutil_rmtree d (snd (bodyd d sd)))
          \<and> \<not> path_isdir (snd (curdir_tmpdir bodyd s)) d
          \<and> (path_isdir (snd (bodyd d sd)) d \<longrightarrow>
                fst (curdir_tmpdir bodyd s) = fst (bodyd d sd)
              \<and> \<not> path_exists (snd (curdir_tmpdir bodyd s)) d
              \<and> (\<forall>q. path_under d q \<longrightarrow> files (snd (curdir_tmpdir bodyd s)) q = None)))
       \<and> (tempfile_mkstemp suffix prefix dir s = (Inr (fd, fname), sf) \<longrightarrow>
            snd (tmpfile suffix prefix dir bodyf s) = snd (tmpfile_exit fd fname (snd (bodyf fname sf)))
          \<and> fd \<notin> set (open_fds (snd (tmpfile suffix prefix dir bodyf s)))
          \<and> (fd \<in> set (open_fds (snd (bodyf fname sf))) \<longrightarrow>
                \<not> path_isfile (snd (tmpfile suffix prefix dir bodyf s)) fname))
       \<and> (chdir_enter new_dir s = (Inr cur, sc) \<longrightarrow>
            cur = cwd s
          \<and> snd (chdir new_dir bodyc s) = snd (os_chdir cur (snd (bodyc sc)))
          \<and> (path_isdir (snd (bodyc sc)) cur \<longrightarrow>
                fst (chdir new_dir bodyc s) = fst (bodyc sc)
              \<and> cwd (snd (chdir new_dir bodyc s)) = cwd s))"
proof (intro conjI impI)
  assume e: "curdir_tmpdir_enter s = (Inr d, sd)"
  note abs = curdir_tmpdir_enter_props(1) [OF e assms]
  show st: "snd (curdir_tmpdir bodyd s) = snd (shutil_rmtree d (snd (bodyd d sd)))"
    by (simp add: curdir_tmpdir_def e try_finally_state)
  show "\<not> path_isdir (snd (curdir_tmpdir bodyd s)) d"
    unfolding st by (rule rmtree_effect(1) [OF abs])
  assume dir: "path_isdir (snd (bodyd d sd)) d"
  show "fst (curdir_tmpdir bodyd s) = fst (bodyd d sd)"
    using rmtree_effect(2) [OF abs dir] by (simp add: curdir_tmpdir_def e try_finally_outcome)
  show "\<not> path_exists (snd (curdir_tmpdir bodyd s)) d"
    unfolding st by (rule rmtree_effect(3) [OF abs dir])
  show "\<forall>q. path_under d q \<longrightarrow> files (snd (curdir_tmpdir bodyd s)) q = None"
    unfolding st using rmtree_effect(4) [OF abs dir] by blast
next
  assume e: "tempfile_mkstemp suffix prefix dir s = (Inr (fd, fname), sf)"
  show st: "snd (tmpfile suffix prefix dir bodyf s) = snd (tmpfile_exit fd fname (snd (bodyf fname sf)))"
    by (simp add: tmpfile_def e try_finally_state)
  show "fd \<notin> set (open_fds (snd (tmpfile suffix prefix dir bodyf s)))"
    unfolding st by (rule tmpfile_exit_effect(1))
  assume "fd \<in> set (open_fds (snd (bodyf fname sf)))"
  then show "\<not> path_isfile (snd (tmpfile suffix prefix dir bodyf s)) fname"
    unfolding st by (rule tmpfile_exit_effect(2))
next
  assume e: "chdir_enter new_dir s = (Inr cur, sc)"
  show cur: "cur = cwd s" using e by (rule chdir_enter_cur)
  show st: "snd (chdir new_dir bodyc s) = snd (os_chdir cur (snd (bodyc sc)))"
    by (simp add: chdir_def e try_finally_state)
  assume dir: "path_isdir (snd (bodyc sc)) cur"
  have rest: "os_chdir cur (snd (bodyc sc)) = (Inr (), (snd (bodyc sc))\<lparr>cwd := cur\<rparr>)"
    using assms dir by (intro os_chdir_back) (simp_all add: cur)
  show "fst (chdir new_dir bodyc s) = fst (bodyc sc)"
    by (simp add: chdir_def e try_finally_outcome rest)
  show "cwd (snd (chdir new_dir bodyc s)) = cwd s"
    unfolding st rest by (simp add: cur)
qed

lemma tmp_name_abcdef:
  "tmp_name [0, 1, 2, 3, 4, 5] = ''abcdef''" "tmp_name [0, Suc 0, 2, 3, 4, 5] = ''abcdef''"
  by (simp_all add: tmp_name_def tmp_chars_def)

lemma enter_world0:
  "curdir_tmpdir_enter world0 = (Inr ''/w/tmp/tmpabcdef'', snd (curdir_tmpdir_enter world0))"
proof -
  have 1: "path_join (cwd world0) ''tmp'' = ''/w/tmp''"
    by (simp add: path_join_def world0_def)
  have "fst (curdir_tmpdir_enter world0) = Inr ''/w/tmp/tmpabcdef''"
    apply (simp add: curdir_tmpdir_enter_def os_getcwd_def 1 Let_def)
    apply (simp add: safe_makedir_def safe_makedir_racing_def path_exists_def lookup_def resolve_def
        os_makedirs_def ancestors_def world0_def Let_def tempfile_mkdtemp_def tmp_name_abcdef
        path_join_def os_mkdir_def parent_dir_def)
    done
  then show ?thesis by (simp add: prod_eq_iff)
qed


lemma curdir_tmpdir_state:
  "curdir_tmpdir_enter s = (Inr d, sd) \<Longrightarrow>
     snd (curdir_tmpdir body s) = snd (shutil_rmtree d (snd (body d sd)))"
  by (simp add: curdir_tmpdir_def try_finally_state)

lemma abs_world0: "is_abs (cwd world0)"
  by (simp add: is_abs_def world0_def)

lemma mkstemp_world0:
  "tempfile_mkstemp [] ''tmp'' ''/w'' world0
     = (Inr (3, ''/w/tmpabcdef''), snd (tempfile_mkstemp [] ''tmp'' ''/w'' world0))"
  "open_fds (snd (tempfile_mkstemp [] ''tmp'' ''/w'' world0)) = [3, 0, 1, 2]"
  "path_isfile (snd (tempfile_mkstemp [] ''tmp'' ''/w'' world0)) ''/w/tmpabcdef''"
proof -
  have n: "new_fd [0, Suc 0, 2] = 3"
    by (simp add: new_fd_def upt_rec)
  have e: "tempfile_mkstemp [] ''tmp'' ''/w'' world0
      = (Inr (3, ''/w/tmpabcdef''),
         world0\<lparr>name_choices := [[6, 7, 8, 9, 10, 11]],
           files := (files world0)(''/w/tmpabcdef'' \<mapsto> File []), open_fds := [3, 0, 1, 2]\<rparr>)"
    by (simp add: tempfile_mkstemp_def world0_def tmp_name_abcdef path_join_def os_open_excl_def
        resolve_def parent_dir_def n Let_def)
  show "tempfile_mkstemp [] ''tmp'' ''/w'' world0
     = (Inr (3, ''/w/tmpabcdef''), snd (tempfile_mkstemp [] ''tmp'' ''/w'' world0))"
    by (simp add: e)
  show "open_fds (snd (tempfile_mkstemp [] ''tmp'' ''/w'' world0)) = [3, 0, 1, 2]"
    by (simp add: e)
  show "path_isfile (snd (tempfile_mkstemp [] ''tmp'' ''/w'' world0)) ''/w/tmpabcdef''"
    by (simp add: e path_isfile_def lookup_def resolve_def)
qed

lemma chdir_enter_world0:
  "chdir_enter ''/w/sub'' world0 = (Inr ''/w'', snd (chdir_enter ''/w/sub'' world0))"
  "cwd (snd (chdir_enter ''/w/sub'' world0)) = ''/w/sub''"
  "path_isdir (snd (chdir_enter ''/w/sub'' world0)) ''/w''"
proof -
  have a: "ancestors ''/w/sub'' = [''/w'']" by (simp add: ancestors_def)
  note defs = chdir_enter_def os_getcwd_def safe_makedir_def safe_makedir_racing_def
    path_exists_def path_isdir_def lookup_def resolve_def os_makedirs_def a os_chdir_def
    world0_def Let_def
  have "fst (chdir_enter ''/w/sub'' world0) = Inr ''/w''"
    by (simp add: defs)
  then show "chdir_enter ''/w/sub'' world0 = (Inr ''/w'', snd (chdir_enter ''/w/sub'' world0))"
    by (simp add: prod_eq_iff)
  show "cwd (snd (chdir_enter ''/w/sub'' world0)) = ''/w/sub''"
    by (simp add: defs)
  show "path_isdir (snd (chdir_enter ''/w/sub'' world0)) ''/w''"
    by (simp add: defs)
qed

text \<open>
  The three helpers on the small machine, each with a block that raises: the exception
  comes out of the scope, \<^verbatim>\<open>/w/tmp/tmpabcdef\<close> and the file left in it are gone, descriptor
  3 is closed and \<^verbatim>\<open>/w/tmpabcdef\<close> deleted, and the working directory is \<^verbatim>\<open>/w\<close> again.
\<close>

theorem scoped_helpers_release_witness:
  "is_abs (cwd world0)
   \<and> fst (curdir_tmpdir_enter world0) = Inr ''/w/tmp/tmpabcdef''
   \<and> fst (curdir_tmpdir littering world0) = Inl (UserError ''boom'')
   \<and> \<not> path_exists (snd (curdir_tmpdir littering world0)) ''/w/tmp/tmpabcdef''
   \<and> files (snd (curdir_tmpdir littering world0)) ''/w/tmp/tmpabcdef/x'' = None
   \<and> fst (tempfile_mkstemp [] ''tmp'' ''/w'' world0) = Inr (3, ''/w/tmpabcdef'')
   \<and> path_isfile (snd (tempfile_mkstemp [] ''tmp'' ''/w'' world0)) ''/w/tmpabcdef''
   \<and> 3 \<notin> set (open_fds (snd (tmpfile [] ''tmp'' ''/w'' failing_in world0)))
   \<and> \<not> path_isfile (snd (tmpfile [] ''tmp'' ''/w'' failing_in world0)) ''/w/tmpabcdef''
   \<and> fst (chdir_enter ''/w/sub'' world0) = Inr ''/w''
   \<and> cwd (snd (chdir_enter ''/w/sub'' world0)) = ''/w/sub''
   \<and> fst (chdir ''/w/sub'' (failing_in ()) world0) = Inl (UserError ''boom'')
   \<and> cwd (snd (chdir ''/w/sub'' (failing_in ()) world0)) = ''/w''"
proof -
  let ?d = "''/w/tmp/tmpabcdef''"
  let ?sd = "snd (curdir_tmpdir_enter world0)"
  let ?sf = "snd (tempfile_mkstemp [] ''tmp'' ''/w'' world0)"
  let ?sc = "snd (chdir_enter ''/w/sub'' world0)"
  have d1: "path_isdir (snd (littering ?d ?sd)) ?d"
    using curdir_tmpdir_enter_props(2) [OF enter_world0 abs_world0]
    by (simp add: littering_def creator_def path_isdir_def lookup_def resolve_def)
  have u: "path_under ?d ''/w/tmp/tmpabcdef/x''"
    by (simp add: path_under_def)
  have f1: "3 \<in> set (open_fds (snd (failing_in ''/w/tmpabcdef'' ?sf)))"
    by (simp add: failing_in_def mkstemp_world0(2))
  have c1: "path_isdir (snd (failing_in () ?sc)) ''/w''"
    by (simp add: failing_in_def chdir_enter_world0(3))
  have w0: "cwd world0 = ''/w''" by (simp add: world0_def)
  note r = scoped_helpers_release [OF abs_world0, where d = ?d and sd = ?sd and bodyd = littering
        and suffix = "[]" and prefix = "''tmp''" and dir = "''/w''" and fd = 3
        and fname = "''/w/tmpabcdef''" and sf = ?sf and bodyf = failing_in
        and new_dir = "''/w/sub''" and cur = "''/w''" and sc = ?sc and bodyc = "failing_in ()"]
  from r enter_world0 d1 u have A:
    "fst (curdir_tmpdir littering world0) = fst (littering ?d ?sd)"
    "\<not> path_exists (snd (curdir_tmpdir littering world0)) ?d"
    "files (snd (curdir_tmpdir littering world0)) ''/w/tmp/tmpabcdef/x'' = None"
    by blast+
  from r mkstemp_world0(1) f1 have B:
    "3 \<notin> set (open_fds (snd (tmpfile [] ''tmp'' ''/w'' failing_in world0)))"
    "\<not> path_isfile (snd (tmpfile [] ''tmp'' ''/w'' failing_in world0)) ''/w/tmpabcdef''"
    by blast+
  from r chdir_enter_world0(1) c1 have C:
    "fst (chdir ''/w/sub'' (failing_in ()) world0) = fst (failing_in () ?sc)"
    "cwd (snd (chdir ''/w/sub'' (failing_in ()) world0)) = cwd world0"
    by blast+
  have E: "fst (curdir_tmpdir_enter world0) = Inr ?d"
    "fst (tempfile_mkstemp [] ''tmp'' ''/w'' world0) = Inr (3, ''/w/tmpabcdef'')"
    "fst (chdir_enter ''/w/sub'' world0) = Inr ''/w''"
    using enter_world0 mkstemp_world0(1) chdir_enter_world0(1) by (simp_all add: prod_eq_iff)
  show ?thesis
    using A B C E abs_world0 mkstemp_world0(3) chdir_enter_world0(2) w0
    by (simp add: littering_def failing_in_def)
qed

text \<open>
  Claim C9.  When \<^verbatim>\<open>curdir_tmpdir\<close> has entered its scope, \<^verbatim>\<open>tmp\<close> under the working
  directory is a directory and the per-call directory lies in it; leaving the scope
  changes nothing outside the per-call directory and what is below it, so the \<^verbatim>\<open>tmp\<close>
  directory the block left behind is still there after the scope.
\<close>

theorem curdir_tmpdir_keeps_base:
  assumes "is_abs (cwd s)" "curdir_tmpdir_enter s = (Inr d, sd)"
  shows "path_isdir sd (path_join (cwd s) ''tmp'')
       \<and> path_under (path_join (cwd s) ''tmp'') d
       \<and> (\<forall>q. q \<noteq> d \<and> \<not> path_under d q \<longrightarrow>
              files (snd (curdir_tmpdir body s)) q = files (snd (body d sd)) q)
       \<and> (path_isdir (snd (body d sd)) (path_join (cwd s) ''tmp'') \<longrightarrow>
              path_isdir (snd (curdir_tmpdir body s)) (path_join (cwd s) ''tmp''))"
proof -
  let ?b = "path_join (cwd s) ''tmp''"
  note p = curdir_tmpdir_enter_props [OF assms(2,1)]
  note babs = base_props(1) [OF assms(1)]
  have st: "snd (curdir_tmpdir body s) = snd (shutil_rmtree d (snd (body d sd)))"
    by (simp add: curdir_tmpdir_def assms(2) try_finally_state)
  have frame: "files (snd (curdir_tmpdir body s)) q = files (snd (body d sd)) q"
    if "q \<noteq> d" "\<not> path_under d q" for q
    unfolding st using that by (rule rmtree_effect(5) [OF p(1)])
  have "files (snd (curdir_tmpdir body s)) ?b = files (snd (body d sd)) ?b"
    using p(6,7) by (intro frame) auto
  then have keep: "path_isdir (snd (body d sd)) ?b \<longrightarrow> path_isdir (snd (curdir_tmpdir body s)) ?b"
    by (simp add: path_isdir_def lookup_abs [OF babs])
  have "path_isdir sd ?b" by (simp add: path_isdir_def lookup_abs [OF babs] p(3))
  with p(4) frame keep show ?thesis by blast
qed

theorem curdir_tmpdir_keeps_base_witness:
  "is_abs (cwd world0)
   \<and> fst (curdir_tmpdir_enter world0) = Inr ''/w/tmp/tmpabcdef''
   \<and> path_join (cwd world0) ''tmp'' = ''/w/tmp''
   \<and> path_isdir (snd (curdir_tmpdir_enter world0)) ''/w/tmp''
   \<and> path_isdir (snd (curdir_tmpdir littering world0)) ''/w/tmp''
   \<and> \<not> path_isdir (snd (curdir_tmpdir littering world0)) ''/w/tmp/tmpabcdef''"
proof -
  let ?d = "''/w/tmp/tmpabcdef''"
  let ?sd = "snd (curdir_tmpdir_enter world0)"
  have j: "path_join (cwd world0) ''tmp'' = ''/w/tmp''"
    by (simp add: path_join_def world0_def)
  note k = curdir_tmpdir_keeps_base [OF abs_world0 enter_world0, of littering, unfolded j]
  have b1: "path_isdir (snd (littering ?d ?sd)) ''/w/tmp''"
    using k by (simp add: littering_def creator_def path_isdir_def lookup_def resolve_def)
  have st: "snd (curdir_tmpdir littering world0) = snd (shutil_rmtree ?d (snd (littering ?d ?sd)))"
    by (rule curdir_tmpdir_state [OF enter_world0])
  have gone: "\<not> path_isdir (snd (curdir_tmpdir littering world0)) ?d"
    unfolding st by (rule rmtree_effect(1)) (simp add: is_abs_def)
  show ?thesis
    using k b1 gone enter_world0 abs_world0 j by (simp add: prod_eq_iff)
qed

end
